theory Spec2Isabelle
  imports Complex_Main "HOL-Library.Word" "HOL-Library.AList"
begin

unbundle bit_operations_syntax

section \<open>Data model (types/city.ts)\<close>

text \<open>
  JavaScript strings are modelled as HOL strings: a path is the sequence of its
  code units, each below 256. Numbers that hold grid coordinates, bounds and
  intervals are integers; time stamps are integers (milliseconds since the epoch).
  Identifiers produced by \<^verbatim>\<open>Date.now()\<close> and \<^verbatim>\<open>Math.random()\<close> are inputs of the
  model.
\<close>

type_synonym ident = string

record GridCoordinate =
  xc :: int
  zc :: int

datatype CellState = EMPTY | OCCUPIED | RESERVED | ROAD

record GridCell =
  coordinate :: GridCoordinate
  state :: CellState
  buildingId :: "ident option"
  reservedBy :: "ident option"

record GridBounds =
  minX :: int
  maxX :: int
  minZ :: int
  maxZ :: int
  width :: int
  height :: int

section \<open>GridManager (utils/GridManager.ts)\<close>

text \<open>
  The grid is a \<^verbatim>\<open>Map\<close> from the key \<^verbatim>\<open>"x,z"\<close> to a cell; the key of an integer
  pair is modelled by the pair itself.
\<close>

record GridManager =
  grid :: "(int \<times> int) \<rightharpoonup> GridCell"
  bounds :: GridBounds
  roadInterval :: int

definition initialSize :: int where
  "initialSize = 50"

text \<open>
  The remainder operator \<^verbatim>\<open>%\<close> on integers: the result has the sign of the dividend,
  and a zero divisor gives \<^verbatim>\<open>NaN\<close>, modelled by \<open>None\<close>.
\<close>

definition jsRem :: "int \<Rightarrow> int \<Rightarrow> int option" where
  "jsRem a b = (if b = 0 then None else Some (sgn a * (\<bar>a\<bar> mod \<bar>b\<bar>)))"

text \<open>The test \<^verbatim>\<open>x % roadInterval === 0 || z % roadInterval === 0\<close>.\<close>

definition isRoad :: "int \<Rightarrow> int \<Rightarrow> int \<Rightarrow> bool" where
  "isRoad r x z \<longleftrightarrow> jsRem x r = Some 0 \<or> jsRem z r = Some 0"

definition getGridKey :: "int \<Rightarrow> int \<Rightarrow> int \<times> int" where
  "getGridKey x z = (x, z)"

definition freshCell :: "int \<Rightarrow> int \<Rightarrow> int \<Rightarrow> GridCell" where
  "freshCell r x z =
     \<lparr>coordinate = \<lparr>xc = x, zc = z\<rparr>,
      state = (if isRoad r x z then ROAD else EMPTY),
      buildingId = None, reservedBy = None\<rparr>"

definition initializeGrid :: "GridManager \<Rightarrow> GridManager" where
  "initializeGrid gm =
     gm\<lparr>grid :=
       fold (\<lambda>x g. fold (\<lambda>z g. g(getGridKey x z \<mapsto> freshCell (roadInterval gm) x z))
                        [minZ (bounds gm)..maxZ (bounds gm)] g)
            [minX (bounds gm)..maxX (bounds gm)] (grid gm)\<rparr>"

text \<open>The constructor; \<^verbatim>\<open>-initialSize / 2\<close> is the integer \<open>-25\<close>.\<close>

definition newGridManager :: "int \<Rightarrow> GridManager" where
  "newGridManager r =
     initializeGrid
       \<lparr>grid = Map.empty,
        bounds = \<lparr>minX = - (initialSize div 2), maxX = initialSize div 2,
                  minZ = - (initialSize div 2), maxZ = initialSize div 2,
                  width = initialSize, height = initialSize\<rparr>,
        roadInterval = r\<rparr>"

text \<open>
  \<^verbatim>\<open>simpleHash\<close>: the accumulator is a 32-bit integer after every round
  (\<^verbatim>\<open>hash & hash\<close>); \<^verbatim>\<open>Math.abs\<close> is taken on its signed value.
\<close>

definition hashStep :: "char \<Rightarrow> 32 word \<Rightarrow> 32 word" where
  "hashStep c h = (push_bit 5 h - h) + of_char c"

definition simpleHash :: "string \<Rightarrow> int" where
  "simpleHash str = \<bar>sint (fold hashStep str 0)\<bar>"

text \<open>
  \<^verbatim>\<open>getHashedPosition\<close>. The hash is not negative, so \<^verbatim>\<open>Math.floor(hash / width)\<close>
  is the integer quotient. A coordinate with a \<^verbatim>\<open>NaN\<close> component (zero width or
  height) is \<open>None\<close>.
\<close>

definition getHashedPosition :: "GridManager \<Rightarrow> string \<Rightarrow> GridCoordinate option" where
  "getHashedPosition gm filePath =
     (let hash = simpleHash filePath; b = bounds gm in
      case jsRem hash (width b) of
        None \<Rightarrow> None
      | Some rx \<Rightarrow>
          (case jsRem (hash div width b) (height b) of
             None \<Rightarrow> None
           | Some rz \<Rightarrow> Some \<lparr>xc = rx + minX b, zc = rz + minZ b\<rparr>))"

definition isValidPosition :: "GridManager \<Rightarrow> GridCoordinate \<Rightarrow> bool" where
  "isValidPosition gm coord =
     (if xc coord < minX (bounds gm) \<or> xc coord > maxX (bounds gm) \<or>
         zc coord < minZ (bounds gm) \<or> zc coord > maxZ (bounds gm)
      then False
      else (case grid gm (getGridKey (xc coord) (zc coord)) of
              None \<Rightarrow> False
            | Some cell \<Rightarrow> state cell = EMPTY))"

text \<open>
  The candidates of one radius, in the order of the two nested \<^verbatim>\<open>for\<close> loops
  (\<open>dx\<close> outside, \<open>dz\<close> inside), restricted to the perimeter.
\<close>

definition ring :: "GridCoordinate \<Rightarrow> int \<Rightarrow> GridCoordinate list" where
  "ring p radius =
     concat (map (\<lambda>dx. map (\<lambda>dz. \<lparr>xc = xc p + dx, zc = zc p + dz\<rparr>)
                          (filter (\<lambda>dz. \<bar>dx\<bar> = radius \<or> \<bar>dz\<bar> = radius) [- radius..radius]))
                 [- radius..radius])"

function spiralSearch ::
  "GridManager \<Rightarrow> GridCoordinate \<Rightarrow> int \<Rightarrow> int \<Rightarrow> GridCoordinate option" where
  "spiralSearch gm p radius maxRadius =
     (if radius \<le> maxRadius
      then (case find (isValidPosition gm) (ring p radius) of
              Some candidate \<Rightarrow> Some candidate
            | None \<Rightarrow> spiralSearch gm p (radius + 1) maxRadius)
      else None)"
  by pat_completeness auto
termination
  by (relation "measure (\<lambda>(gm, p, radius, maxRadius). nat (maxRadius + 1 - radius))") auto

declare spiralSearch.simps [simp del]

text \<open>
  \<^verbatim>\<open>findAvailablePosition\<close>. A preferred position with a \<^verbatim>\<open>NaN\<close> component fails
  every \<^verbatim>\<open>isValidPosition\<close> test, so the search returns \<^verbatim>\<open>null\<close>.
\<close>

definition findAvailablePosition ::
  "GridManager \<Rightarrow> GridCoordinate option \<Rightarrow> GridCoordinate option" where
  "findAvailablePosition gm preferredPos =
     (case preferredPos of
        None \<Rightarrow> None
      | Some p \<Rightarrow>
          if isValidPosition gm p then Some p
          else spiralSearch gm p 1 (max (width (bounds gm)) (height (bounds gm))))"

definition expansion :: "GridBounds \<Rightarrow> int" where
  "expansion b = (min (width b) (height b) + 1) div 2"

definition expandGrid :: "GridManager \<Rightarrow> GridManager" where
  "expandGrid gm =
     (let oldBounds = bounds gm;
          e = expansion oldBounds;
          newBounds = \<lparr>minX = minX oldBounds - e, maxX = maxX oldBounds + e,
                       minZ = minZ oldBounds - e, maxZ = maxZ oldBounds + e,
                       width = width oldBounds + e * 2, height = height oldBounds + e * 2\<rparr>
      in gm\<lparr>bounds := newBounds,
            grid :=
              fold (\<lambda>x g. fold (\<lambda>z g. if g (getGridKey x z) = None
                                       then g(getGridKey x z \<mapsto> freshCell (roadInterval gm) x z)
                                       else g)
                               [minZ newBounds..maxZ newBounds] g)
                   [minX newBounds..maxX newBounds] (grid gm)\<rparr>)"

datatype alloc_error = UnableToAllocate string

definition occupy :: "GridManager \<Rightarrow> GridCoordinate \<Rightarrow> ident \<Rightarrow> GridManager" where
  "occupy gm pos bid =
     (case grid gm (getGridKey (xc pos) (zc pos)) of
        None \<Rightarrow> gm
      | Some cell \<Rightarrow>
          gm\<lparr>grid := (grid gm)(getGridKey (xc pos) (zc pos) \<mapsto>
                 cell\<lparr>state := OCCUPIED, buildingId := Some bid\<rparr>)\<rparr>)"

definition allocatePosition ::
  "GridManager \<Rightarrow> string \<Rightarrow> ident \<Rightarrow> GridManager \<times> (alloc_error + GridCoordinate)" where
  "allocatePosition gm filePath bid =
     (let preferredPos = getHashedPosition gm filePath in
      case findAvailablePosition gm preferredPos of
        Some availablePos \<Rightarrow> (occupy gm availablePos bid, Inr availablePos)
      | None \<Rightarrow>
          (let gm' = expandGrid gm in
           case findAvailablePosition gm' preferredPos of
             None \<Rightarrow> (gm', Inl (UnableToAllocate filePath))
           | Some availablePos \<Rightarrow> (occupy gm' availablePos bid, Inr availablePos)))"

definition freePosition :: "GridManager \<Rightarrow> GridCoordinate \<Rightarrow> GridManager \<times> bool" where
  "freePosition gm pos =
     (case grid gm (getGridKey (xc pos) (zc pos)) of
        None \<Rightarrow> (gm, False)
      | Some cell \<Rightarrow>
          if state cell = OCCUPIED
          then (gm\<lparr>grid := (grid gm)(getGridKey (xc pos) (zc pos) \<mapsto>
                      cell\<lparr>state := EMPTY, buildingId := None, reservedBy := None\<rparr>)\<rparr>, True)
          else (gm, False))"

definition reservePosition :: "GridManager \<Rightarrow> GridCoordinate \<Rightarrow> ident \<Rightarrow> GridManager \<times> bool" where
  "reservePosition gm pos owner =
     (case grid gm (getGridKey (xc pos) (zc pos)) of
        None \<Rightarrow> (gm, False)
      | Some cell \<Rightarrow>
          if state cell = EMPTY
          then (gm\<lparr>grid := (grid gm)(getGridKey (xc pos) (zc pos) \<mapsto>
                      cell\<lparr>state := RESERVED, reservedBy := Some owner\<rparr>)\<rparr>, True)
          else (gm, False))"

definition releaseReservation :: "GridManager \<Rightarrow> GridCoordinate \<Rightarrow> GridManager \<times> bool" where
  "releaseReservation gm pos =
     (case grid gm (getGridKey (xc pos) (zc pos)) of
        None \<Rightarrow> (gm, False)
      | Some cell \<Rightarrow>
          if state cell = RESERVED
          then (gm\<lparr>grid := (grid gm)(getGridKey (xc pos) (zc pos) \<mapsto>
                      cell\<lparr>state := EMPTY, reservedBy := None\<rparr>)\<rparr>, True)
          else (gm, False))"

definition getCell :: "GridManager \<Rightarrow> GridCoordinate \<Rightarrow> GridCell option" where
  "getCell gm pos = grid gm (getGridKey (xc pos) (zc pos))"


section \<open>FileTracker (utils/FileTracker.ts)\<close>

datatype FileChangeType = CREATE | MODIFY | DELETE | RENAME | MOVE

datatype FileType =
  JAVASCRIPT | TYPESCRIPT | PYTHON | JAVA | CSS | HTML | MARKDOWN | JSON | CONFIG | IMAGE | OTHER

text \<open>A layer as the callers pass it (\<^verbatim>\<open>Omit<BuildingLayer, 'id'>\<close>), and with its id.\<close>

record LayerInput =
  commitSha :: string
  timestamp :: int
  author :: string
  authorEmail :: string
  changeType :: FileChangeType
  linesAdded :: int
  linesDeleted :: int
  message :: string

record BuildingLayer = LayerInput +
  id_l :: ident

record Building =
  id_b :: ident
  filePath :: string
  position :: GridCoordinate
  layers :: "BuildingLayer list"
  fileType :: FileType
  isActive :: bool
  createdAt :: int
  lastModified :: int

text \<open>
  Both maps are JavaScript \<^verbatim>\<open>Map\<close>s, which iterate in insertion order: association
  lists, with \<open>AList.update\<close> for \<^verbatim>\<open>set\<close> (in place for a present key, at the end for
  a new one), \<open>AList.delete\<close> for \<^verbatim>\<open>delete\<close> and \<open>map_of\<close> for \<^verbatim>\<open>get\<close>.
\<close>

record FileTracker =
  buildings :: "(string \<times> Building) list"
  buildingIds :: "(ident \<times> string) list"

definition newFileTracker :: FileTracker where
  "newFileTracker = \<lparr>buildings = [], buildingIds = []\<rparr>"

definition toLowerCase :: "char \<Rightarrow> char" where
  "toLowerCase c =
     (let n = (of_char c :: nat) in
      if (65 \<le> n \<and> n \<le> 90) \<or> (192 \<le> n \<and> n \<le> 222 \<and> n \<noteq> 215)
      then char_of (n + 32) else c)"

text \<open>\<^verbatim>\<open>filePath.split('.').pop()\<close>: what follows the last dot, or the whole path.\<close>

definition lastSegment :: "string \<Rightarrow> string" where
  "lastSegment path = rev (takeWhile (\<lambda>c. c \<noteq> CHR ''.'') (rev path))"

definition determineFileType :: "string \<Rightarrow> FileType" where
  "determineFileType path =
     (let extension = map toLowerCase (lastSegment path) in
      if extension = ''js'' \<or> extension = ''jsx'' then JAVASCRIPT
      else if extension = ''ts'' \<or> extension = ''tsx'' then TYPESCRIPT
      else if extension = ''py'' then PYTHON
      else if extension = ''java'' then JAVA
      else if extension = ''css'' \<or> extension = ''scss'' \<or> extension = ''sass'' \<or>
              extension = ''less'' then CSS
      else if extension = ''html'' \<or> extension = ''htm'' then HTML
      else if extension = ''md'' \<or> extension = ''markdown'' then MARKDOWN
      else if extension = ''json'' then JSON
      else if extension = ''yml'' \<or> extension = ''yaml'' \<or> extension = ''toml'' \<or>
              extension = ''ini'' \<or> extension = ''conf'' \<or> extension = ''config'' then CONFIG
      else if extension = ''png'' \<or> extension = ''jpg'' \<or> extension = ''jpeg'' \<or>
              extension = ''gif'' \<or> extension = ''svg'' \<or> extension = ''webp'' then IMAGE
      else OTHER)"

datatype track_error =
  AlreadyExists string | NoBuildingFound string | InactiveBuilding string
  | ExistsAtDestination string

text \<open>The object \<^verbatim>\<open>{ id: layerId, ...layer }\<close>.\<close>

definition withId :: "ident \<Rightarrow> LayerInput \<Rightarrow> BuildingLayer" where
  "withId layerId l =
     \<lparr>commitSha = commitSha l, timestamp = timestamp l, author = author l,
      authorEmail = authorEmail l, changeType = changeType l, linesAdded = linesAdded l,
      linesDeleted = linesDeleted l, message = message l, id_l = layerId\<rparr>"

definition createBuilding ::
  "FileTracker \<Rightarrow> string \<Rightarrow> GridCoordinate \<Rightarrow> LayerInput \<Rightarrow> ident \<Rightarrow> ident
     \<Rightarrow> FileTracker \<times> (track_error + Building)" where
  "createBuilding ft path pos initialLayer newBuildingId layerId =
     (if map_of (buildings ft) path \<noteq> None then (ft, Inl (AlreadyExists path))
      else
        (let building =
               \<lparr>id_b = newBuildingId, filePath = path, position = pos,
                layers = [withId layerId initialLayer],
                fileType = determineFileType path, isActive = True,
                createdAt = timestamp initialLayer, lastModified = timestamp initialLayer\<rparr>
         in (ft\<lparr>buildings := AList.update path building (buildings ft),
                buildingIds := AList.update newBuildingId path (buildingIds ft)\<rparr>,
             Inr building)))"

definition addLayer ::
  "FileTracker \<Rightarrow> string \<Rightarrow> LayerInput \<Rightarrow> ident \<Rightarrow> FileTracker \<times> (track_error + Building)" where
  "addLayer ft path layer layerId =
     (case map_of (buildings ft) path of
        None \<Rightarrow> (ft, Inl (NoBuildingFound path))
      | Some building \<Rightarrow>
          if \<not> isActive building then (ft, Inl (InactiveBuilding path))
          else
            (let building' =
                   building\<lparr>layers := layers building @ [withId layerId layer],
                            lastModified := timestamp layer\<rparr>
             in (ft\<lparr>buildings := AList.update path building' (buildings ft)\<rparr>, Inr building')))"

definition deleteBuilding ::
  "FileTracker \<Rightarrow> string \<Rightarrow> LayerInput \<Rightarrow> ident \<Rightarrow> FileTracker \<times> (track_error + Building)" where
  "deleteBuilding ft path deletionLayer layerId =
     (case map_of (buildings ft) path of
        None \<Rightarrow> (ft, Inl (NoBuildingFound path))
      | Some building \<Rightarrow>
          (let building' =
                 building\<lparr>layers := layers building @
                                      [(withId layerId deletionLayer)\<lparr>changeType := DELETE\<rparr>],
                          isActive := False,
                          lastModified := timestamp deletionLayer\<rparr>
           in (ft\<lparr>buildings := AList.update path building' (buildings ft)\<rparr>, Inr building')))"

definition moveBuilding ::
  "FileTracker \<Rightarrow> string \<Rightarrow> string \<Rightarrow> GridCoordinate \<Rightarrow> LayerInput \<Rightarrow> ident
     \<Rightarrow> FileTracker \<times> (track_error + Building)" where
  "moveBuilding ft oldFilePath newFilePath newPosition moveLayer layerId =
     (case map_of (buildings ft) oldFilePath of
        None \<Rightarrow> (ft, Inl (NoBuildingFound oldFilePath))
      | Some building \<Rightarrow>
          if map_of (buildings ft) newFilePath \<noteq> None
          then (ft, Inl (ExistsAtDestination newFilePath))
          else
            (let building' =
                   building\<lparr>layers := layers building @
                                        [(withId layerId moveLayer)\<lparr>changeType := MOVE\<rparr>],
                            filePath := newFilePath,
                            position := newPosition,
                            fileType := determineFileType newFilePath,
                            lastModified := timestamp moveLayer\<rparr>
             in (ft\<lparr>buildings :=
                      AList.update newFilePath building' (AList.delete oldFilePath (buildings ft)),
                    buildingIds := AList.update (id_b building') newFilePath (buildingIds ft)\<rparr>,
                 Inr building')))"

definition getBuilding :: "FileTracker \<Rightarrow> string \<Rightarrow> Building option" where
  "getBuilding ft path = map_of (buildings ft) path"

text \<open>\<^verbatim>\<open>filePath ? this.buildings.get(filePath) : undefined\<close>: the empty path is falsy.\<close>

definition getBuildingById :: "FileTracker \<Rightarrow> ident \<Rightarrow> Building option" where
  "getBuildingById ft bid =
     (case map_of (buildingIds ft) bid of
        None \<Rightarrow> None
      | Some path \<Rightarrow> if path = [] then None else map_of (buildings ft) path)"

definition getAllBuildings :: "FileTracker \<Rightarrow> Building list" where
  "getAllBuildings ft = map snd (buildings ft)"

definition getActiveBuildings :: "FileTracker \<Rightarrow> Building list" where
  "getActiveBuildings ft = filter isActive (map snd (buildings ft))"

definition getBuildingHistory :: "FileTracker \<Rightarrow> string \<Rightarrow> BuildingLayer list" where
  "getBuildingHistory ft path =
     (case map_of (buildings ft) path of None \<Rightarrow> [] | Some building \<Rightarrow> layers building)"

definition clear :: "FileTracker \<Rightarrow> FileTracker" where
  "clear ft = ft\<lparr>buildings := [], buildingIds := []\<rparr>"

text \<open>
  \<^verbatim>\<open>exportData\<close> and \<^verbatim>\<open>importData\<close>. A time stamp is exported as its ISO string and
  parsed back on import; both keep the millisecond value, so the exported building is
  modelled by the building itself. \<^verbatim>\<open>data.buildings\<close> may be missing.
\<close>

definition exportData :: "FileTracker \<Rightarrow> Building list option" where
  "exportData ft = Some (map snd (buildings ft))"

definition importData :: "Building list option \<Rightarrow> FileTracker \<Rightarrow> FileTracker" where
  "importData data ft =
     (case data of
        None \<Rightarrow> clear ft
      | Some bs \<Rightarrow>
          fold (\<lambda>building t.
                  t\<lparr>buildings := AList.update (filePath building) building (buildings t),
                    buildingIds := AList.update (id_b building) (filePath building) (buildingIds t)\<rparr>)
               bs (clear ft))"


section \<open>CityGeneratorCore (utils/CityGeneratorCore.ts)\<close>

text \<open>
  The configuration's measures are IEEE doubles in the source. Their type is the
  parameter \<open>'n\<close> of the model, and the arithmetic on them is a parameter of the
  geometry functions below; the road interval is an integer.
\<close>

record ColorScheme =
  fileTypes :: "FileType \<Rightarrow> string option"
  buildingBase :: string
  roads :: string
  terrain :: string
  recentActivity :: string
  oldActivity :: string

record 'n CityConfig =
  gridSpacing :: 'n
  roadWidth :: 'n
  roadInterval_cfg :: int
  buildingBaseSize :: 'n
  layerHeight :: 'n
  maxBuildingHeight :: 'n
  colorScheme :: ColorScheme

datatype event_type = building_created | building_updated | building_deleted | building_moved

datatype event_details =
  PositionDetails GridCoordinate
  | LayersCount nat
  | FinalLayersCount nat
  | MoveDetails string string GridCoordinate GridCoordinate

record CityUpdateEvent =
  ev_type :: event_type
  ev_buildingId :: ident
  ev_filePath :: string
  ev_timestamp :: int
  ev_details :: event_details

text \<open>
  What an operation lets the outside see: the lines written to the console and the
  events handed to the update listeners, in order.
\<close>

datatype effect = ConsoleWarn string | ConsoleError string | Emitted CityUpdateEvent

record 'n CityGeneratorCore =
  gridManager :: GridManager
  fileTracker :: FileTracker
  config :: "'n CityConfig"
  trace :: "effect list"

definition newCityGeneratorCore :: "'n CityConfig \<Rightarrow> 'n CityGeneratorCore" where
  "newCityGeneratorCore cfg =
     \<lparr>gridManager = newGridManager (roadInterval_cfg cfg), fileTracker = newFileTracker,
      config = cfg, trace = []\<rparr>"

text \<open>
  The identifiers one event draws from the clock and the random generator: the id
  handed to the grid, the id of the building, the id of the layer.
\<close>

record entropy =
  rnd_gridId :: ident
  rnd_buildingId :: ident
  rnd_layerId :: ident

definition emitUpdateEvent :: "CityUpdateEvent \<Rightarrow> 'n CityGeneratorCore \<Rightarrow> 'n CityGeneratorCore" where
  "emitUpdateEvent ev eng = eng\<lparr>trace := trace eng @ [Emitted ev]\<rparr>"

definition handleFileCreation ::
  "entropy \<Rightarrow> string \<Rightarrow> LayerInput \<Rightarrow> 'n CityGeneratorCore \<Rightarrow> 'n CityGeneratorCore" where
  "handleFileCreation rnd path layer eng =
     (case getBuilding (fileTracker eng) path of
        Some existing \<Rightarrow>
          eng\<lparr>trace := trace eng @ [ConsoleWarn (''Building already exists for file: '' @ path)]\<rparr>
      | None \<Rightarrow>
          (case allocatePosition (gridManager eng) path (rnd_gridId rnd) of
             (gm, Inl err) \<Rightarrow>
               eng\<lparr>gridManager := gm,
                   trace := trace eng @
                     [ConsoleError (''Failed to allocate position for file: '' @ path)]\<rparr>
           | (gm, Inr pos) \<Rightarrow>
               (case createBuilding (fileTracker eng) path pos layer
                       (rnd_buildingId rnd) (rnd_layerId rnd) of
                  (ft, Inl err) \<Rightarrow> eng\<lparr>gridManager := gm, fileTracker := ft\<rparr>
                | (ft, Inr building) \<Rightarrow>
                    emitUpdateEvent
                      \<lparr>ev_type = building_created, ev_buildingId = id_b building,
                       ev_filePath = path, ev_timestamp = timestamp layer,
                       ev_details = PositionDetails pos\<rparr>
                      (eng\<lparr>gridManager := gm, fileTracker := ft\<rparr>))))"

definition handleFileModification ::
  "entropy \<Rightarrow> string \<Rightarrow> LayerInput \<Rightarrow> 'n CityGeneratorCore \<Rightarrow> 'n CityGeneratorCore" where
  "handleFileModification rnd path layer eng =
     (case getBuilding (fileTracker eng) path of
        None \<Rightarrow> handleFileCreation rnd path layer eng
      | Some existing \<Rightarrow>
          (case addLayer (fileTracker eng) path layer (rnd_layerId rnd) of
             (ft, Inl err) \<Rightarrow> eng\<lparr>fileTracker := ft\<rparr>
           | (ft, Inr building) \<Rightarrow>
               emitUpdateEvent
                 \<lparr>ev_type = building_updated, ev_buildingId = id_b building,
                  ev_filePath = path, ev_timestamp = timestamp layer,
                  ev_details = LayersCount (length (layers building))\<rparr>
                 (eng\<lparr>fileTracker := ft\<rparr>)))"

definition handleFileDeletion ::
  "entropy \<Rightarrow> string \<Rightarrow> LayerInput \<Rightarrow> 'n CityGeneratorCore \<Rightarrow> 'n CityGeneratorCore" where
  "handleFileDeletion rnd path layer eng =
     (case getBuilding (fileTracker eng) path of
        None \<Rightarrow>
          eng\<lparr>trace := trace eng @ [ConsoleWarn (''Cannot delete non-existent file: '' @ path)]\<rparr>
      | Some existing \<Rightarrow>
          (case deleteBuilding (fileTracker eng) path layer (rnd_layerId rnd) of
             (ft, Inl err) \<Rightarrow> eng\<lparr>fileTracker := ft\<rparr>
           | (ft, Inr building) \<Rightarrow>
               emitUpdateEvent
                 \<lparr>ev_type = building_deleted, ev_buildingId = id_b building,
                  ev_filePath = path, ev_timestamp = timestamp layer,
                  ev_details = FinalLayersCount (length (layers building))\<rparr>
                 (eng\<lparr>fileTracker := ft,
                      gridManager := fst (freePosition (gridManager eng) (position building))\<rparr>)))"

text \<open>
  In \<^verbatim>\<open>handleFileMove\<close> the variable \<^verbatim>\<open>building\<close> is the object that
  \<^verbatim>\<open>moveBuilding\<close> updates in place, so the \<^verbatim>\<open>oldPosition\<close> of the event is read after
  the update.
\<close>

definition handleFileMove ::
  "entropy \<Rightarrow> string \<Rightarrow> string \<Rightarrow> LayerInput \<Rightarrow> 'n CityGeneratorCore \<Rightarrow> 'n CityGeneratorCore" where
  "handleFileMove rnd oldPath newPath layer eng =
     (case getBuilding (fileTracker eng) oldPath of
        None \<Rightarrow> handleFileCreation rnd newPath layer eng
      | Some building \<Rightarrow>
          (let gm0 = fst (freePosition (gridManager eng) (position building)) in
           case allocatePosition gm0 newPath (id_b building) of
             (gm, Inl err) \<Rightarrow>
               eng\<lparr>gridManager := gm,
                   trace := trace eng @
                     [ConsoleError (''Failed to allocate new position for moved file: '' @ newPath)]\<rparr>
           | (gm, Inr pos) \<Rightarrow>
               (case moveBuilding (fileTracker eng) oldPath newPath pos layer (rnd_layerId rnd) of
                  (ft, Inl err) \<Rightarrow> eng\<lparr>gridManager := gm, fileTracker := ft\<rparr>
                | (ft, Inr moved) \<Rightarrow>
                    emitUpdateEvent
                      \<lparr>ev_type = building_moved, ev_buildingId = id_b moved,
                       ev_filePath = newPath, ev_timestamp = timestamp layer,
                       ev_details = MoveDetails oldPath newPath (position moved) pos\<rparr>
                      (eng\<lparr>gridManager := gm, fileTracker := ft\<rparr>))))"

section \<open>CityGenerator (utils/CityGenerator.ts)\<close>

text \<open>
  A file change and its commit, with the fields the engine reads (it reads neither the
  \<^verbatim>\<open>status\<close> of a change nor the list of changes inside the commit: \<^verbatim>\<open>processCommit\<close>
  hands each change to \<^verbatim>\<open>processFileChange\<close> together with its commit).
\<close>

record FileChange =
  fc_filePath :: string
  fc_previousPath :: "string option"
  fc_changeType :: FileChangeType
  fc_linesAdded :: int
  fc_linesDeleted :: int

record ProcessedCommit =
  sha :: string
  c_timestamp :: int
  c_author :: string
  c_authorEmail :: string
  c_message :: string

definition layerOf :: "FileChange \<Rightarrow> ProcessedCommit \<Rightarrow> LayerInput" where
  "layerOf fileChange commit =
     \<lparr>commitSha = sha commit, timestamp = c_timestamp commit, author = c_author commit,
      authorEmail = c_authorEmail commit, changeType = fc_changeType fileChange,
      linesAdded = fc_linesAdded fileChange, linesDeleted = fc_linesDeleted fileChange,
      message = c_message commit\<rparr>"

text \<open>\<^verbatim>\<open>fileChange.previousPath || fileChange.filePath\<close>: a missing or empty previous path.\<close>

definition sourcePath :: "FileChange \<Rightarrow> string" where
  "sourcePath fileChange =
     (case fc_previousPath fileChange of
        None \<Rightarrow> fc_filePath fileChange
      | Some p \<Rightarrow> if p = [] then fc_filePath fileChange else p)"

definition processFileChange ::
  "entropy \<Rightarrow> FileChange \<Rightarrow> ProcessedCommit \<Rightarrow> 'n CityGeneratorCore \<Rightarrow> 'n CityGeneratorCore" where
  "processFileChange rnd fileChange commit eng =
     (let layer = layerOf fileChange commit in
      case fc_changeType fileChange of
        CREATE \<Rightarrow> handleFileCreation rnd (fc_filePath fileChange) layer eng
      | MODIFY \<Rightarrow> handleFileModification rnd (fc_filePath fileChange) layer eng
      | DELETE \<Rightarrow> handleFileDeletion rnd (fc_filePath fileChange) layer eng
      | RENAME \<Rightarrow> handleFileMove rnd (sourcePath fileChange) (fc_filePath fileChange) layer eng
      | MOVE \<Rightarrow> handleFileMove rnd (sourcePath fileChange) (fc_filePath fileChange) layer eng)"

text \<open>The changes of a run, each with the commit it belongs to and the identifiers it draws.\<close>

fun processChanges ::
  "(entropy \<times> FileChange \<times> ProcessedCommit) list \<Rightarrow> 'n CityGeneratorCore \<Rightarrow> 'n CityGeneratorCore" where
  "processChanges [] eng = eng"
| "processChanges ((rnd, fileChange, commit) # rest) eng =
     processChanges rest (processFileChange rnd fileChange commit eng)"

record 'n CityData =
  data_config :: "'n CityConfig option"
  data_fileTracker :: "Building list option option"
  data_gridBounds :: GridBounds
  data_timestamp :: int

definition exportCityData :: "int \<Rightarrow> 'n CityGeneratorCore \<Rightarrow> 'n CityData" where
  "exportCityData now eng =
     \<lparr>data_config = Some (config eng),
      data_fileTracker = Some (exportData (fileTracker eng)),
      data_gridBounds = bounds (gridManager eng),
      data_timestamp = now\<rparr>"

definition rebuildGridFromBuildings :: "'n CityGeneratorCore \<Rightarrow> 'n CityGeneratorCore" where
  "rebuildGridFromBuildings eng =
     eng\<lparr>gridManager :=
       fold (\<lambda>building gm. fst (allocatePosition gm (filePath building) (id_b building)))
            (getActiveBuildings (fileTracker eng)) (gridManager eng)\<rparr>"

definition importCityData :: "'n CityData \<Rightarrow> 'n CityGeneratorCore \<Rightarrow> 'n CityGeneratorCore" where
  "importCityData data eng =
     (let eng1 = (case data_config data of None \<Rightarrow> eng | Some cfg \<Rightarrow> eng\<lparr>config := cfg\<rparr>);
          eng2 = (case data_fileTracker data of
                    None \<Rightarrow> eng1
                  | Some d \<Rightarrow> eng1\<lparr>fileTracker := importData d (fileTracker eng1)\<rparr>)
      in rebuildGridFromBuildings eng2)"

definition reset :: "'n CityGeneratorCore \<Rightarrow> 'n CityGeneratorCore" where
  "reset eng =
     eng\<lparr>fileTracker := clear (fileTracker eng),
         gridManager := newGridManager (roadInterval_cfg (config eng))\<rparr>"

section \<open>Geometry (CityGeneratorCore.buildingToGeometry, CityGenerator.generateBuildingGeometries)\<close>








section \<open>Notions used in the statements\<close>

text \<open>An active building is recorded for the path.\<close>

definition hasActiveBuilding :: "FileTracker \<Rightarrow> string \<Rightarrow> bool" where
  "hasActiveBuilding ft path =
     (case getBuilding ft path of None \<Rightarrow> False | Some building \<Rightarrow> isActive building)"

text \<open>The state of the cell at a coordinate, if the grid has that cell.\<close>

definition cellState :: "GridManager \<Rightarrow> GridCoordinate \<Rightarrow> CellState option" where
  "cellState gm pos = map_option state (getCell gm pos)"



text \<open>\<^verbatim>\<open>CityGenerator.getDefaultConfig\<close>.\<close>

definition defaultConfig :: "rat CityConfig" where
  "defaultConfig =
     \<lparr>gridSpacing = 2, roadWidth = 1 / 2, roadInterval_cfg = 4, buildingBaseSize = 1,
      layerHeight = 1 / 5, maxBuildingHeight = 10,
      colorScheme =
        \<lparr>fileTypes = (\<lambda>ft. Some (case ft of
             JAVASCRIPT \<Rightarrow> ''#f7df1e'' | TYPESCRIPT \<Rightarrow> ''#3178c6'' | PYTHON \<Rightarrow> ''#3776ab''
           | JAVA \<Rightarrow> ''#ed8b00'' | CSS \<Rightarrow> ''#1572b6'' | HTML \<Rightarrow> ''#e34f26''
           | MARKDOWN \<Rightarrow> ''#083fa1'' | JSON \<Rightarrow> ''#000000'' | CONFIG \<Rightarrow> ''#6c757d''
           | IMAGE \<Rightarrow> ''#ff6b6b'' | OTHER \<Rightarrow> ''#64748b'')),
         buildingBase = ''#64748b'', roads = ''#374151'', terrain = ''#065f46'',
         recentActivity = ''#10b981'', oldActivity = ''#6b7280''\<rparr>\<rparr>"

text \<open>The inputs of the concrete runs: identifiers, commits and file changes.\<close>

definition ids :: "string \<Rightarrow> entropy" where
  "ids s =
     \<lparr>rnd_gridId = ''building_g'' @ s, rnd_buildingId = ''building_b'' @ s,
      rnd_layerId = ''layer_'' @ s\<rparr>"

definition commitAt :: "int \<Rightarrow> ProcessedCommit" where
  "commitAt t =
     \<lparr>sha = ''abc123'', c_timestamp = t, c_author = ''dev'',
      c_authorEmail = ''dev@example.org'', c_message = ''change''\<rparr>"

definition change :: "FileChangeType \<Rightarrow> string \<Rightarrow> FileChange" where
  "change kind path =
     \<lparr>fc_filePath = path, fc_previousPath = None, fc_changeType = kind,
      fc_linesAdded = 1, fc_linesDeleted = 0\<rparr>"

definition moveTo :: "string \<Rightarrow> string \<Rightarrow> FileChange" where
  "moveTo oldPath newPath =
     \<lparr>fc_filePath = newPath, fc_previousPath = Some oldPath, fc_changeType = MOVE,
      fc_linesAdded = 0, fc_linesDeleted = 0\<rparr>"

definition freshEngine :: "rat CityGeneratorCore" where
  "freshEngine = newCityGeneratorCore defaultConfig"

text \<open>The distance whose spheres are the square rings of the spiral search.\<close>

definition chebyshev :: "GridCoordinate \<Rightarrow> GridCoordinate \<Rightarrow> int" where
  "chebyshev p c = max \<bar>xc c - xc p\<bar> \<bar>zc c - zc p\<bar>"

text \<open>
  Two grid managers with the same bounds, the same road interval and the same state
  in every cell; the ids stored in the cells may differ.
\<close>

definition same_layout :: "GridManager \<Rightarrow> GridManager \<Rightarrow> bool" where
  "same_layout gm1 gm2 \<longleftrightarrow>
     bounds gm1 = bounds gm2 \<and> roadInterval gm1 = roadInterval gm2 \<and>
     (\<forall>x z. map_option state (grid gm1 (x, z)) = map_option state (grid gm2 (x, z)))"

text \<open>
  The road pattern: a cell of the grid is \<open>ROAD\<close> exactly when the road test holds at
  its key.
\<close>

definition roads_fixed :: "GridManager \<Rightarrow> bool" where
  "roads_fixed gm \<longleftrightarrow>
     (\<forall>x z cell. grid gm (x, z) = Some cell \<longrightarrow>
        (state cell = ROAD \<longleftrightarrow> isRoad (roadInterval gm) x z))"

text \<open>
  What every operation on the grid maintains: the road interval, the road pattern, and
  the presence of every cell.
\<close>

definition grid_step :: "GridManager \<Rightarrow> GridManager \<Rightarrow> bool" where
  "grid_step gm gm' \<longleftrightarrow>
     roadInterval gm' = roadInterval gm \<and> (roads_fixed gm \<longrightarrow> roads_fixed gm') \<and>
     (\<forall>k. grid gm k \<noteq> None \<longrightarrow> grid gm' k \<noteq> None)"

text \<open>
  The id map that the entries of the ledger determine (a later entry wins).
\<close>

definition idIndex :: "(string \<times> Building) list \<Rightarrow> ident \<rightharpoonup> string" where
  "idIndex bs = map_of (rev (map (\<lambda>(k, b). (id_b b, k)) bs))"

text \<open>
  What every operation of the tracker maintains: one entry per path, every building
  filed under its own path, and the id map agreeing with the entries.
\<close>

definition ledger_ok :: "FileTracker \<Rightarrow> bool" where
  "ledger_ok ft \<longleftrightarrow>
     distinct (map fst (buildings ft)) \<and>
     (\<forall>(k, b) \<in> set (buildings ft). filePath b = k) \<and>
     map_of (buildingIds ft) = idIndex (buildings ft)"

section \<open>Closed forms of the grid loops\<close>

lemma fold_set_row:
  "fold (\<lambda>z g. g(getGridKey x z \<mapsto> f z)) zs g =
     (\<lambda>k. if fst k = x \<and> snd k \<in> set zs then Some (f (snd k)) else g k)"
  by (induction zs arbitrary: g) (auto simp: fun_eq_iff getGridKey_def)

lemma fold_add_row:
  "fold (\<lambda>z g. if g (getGridKey x z) = None then g(getGridKey x z \<mapsto> f z) else g) zs g =
     (\<lambda>k. if fst k = x \<and> snd k \<in> set zs \<and> g k = None then Some (f (snd k)) else g k)"
  by (induction zs arbitrary: g) (auto simp: fun_eq_iff getGridKey_def)

lemma fold_set_rows:
  "fold (\<lambda>x g. fold (\<lambda>z g. g(getGridKey x z \<mapsto> f x z)) zs g) xs g =
     (\<lambda>k. if fst k \<in> set xs \<and> snd k \<in> set zs then Some (f (fst k) (snd k)) else g k)"
  by (induction xs arbitrary: g) (auto simp: fun_eq_iff fold_set_row)

lemma fold_add_rows:
  "fold (\<lambda>x g. fold (\<lambda>z g. if g (getGridKey x z) = None then g(getGridKey x z \<mapsto> f x z)
                            else g) zs g) xs g =
     (\<lambda>k. if fst k \<in> set xs \<and> snd k \<in> set zs \<and> g k = None
          then Some (f (fst k) (snd k)) else g k)"
  by (induction xs arbitrary: g) (auto simp: fun_eq_iff fold_add_row)

lemma fold_set_upto:
  "fold (\<lambda>x g. fold (\<lambda>z g. g(getGridKey x z \<mapsto> f x z)) [c..d] g) [a..b] g =
     (\<lambda>k. if a \<le> fst k \<and> fst k \<le> b \<and> c \<le> snd k \<and> snd k \<le> d
          then Some (f (fst k) (snd k)) else g k)"
  by (simp add: fold_set_rows fun_eq_iff)

lemma fold_add_upto:
  "fold (\<lambda>x g. fold (\<lambda>z g. if g (getGridKey x z) = None then g(getGridKey x z \<mapsto> f x z)
                            else g) [c..d] g) [a..b] g =
     (\<lambda>k. if a \<le> fst k \<and> fst k \<le> b \<and> c \<le> snd k \<and> snd k \<le> d \<and> g k = None
          then Some (f (fst k) (snd k)) else g k)"
  by (simp add: fold_add_rows fun_eq_iff)

lemma grid_newGridManager:
  "grid (newGridManager r) k =
     (if - 25 \<le> fst k \<and> fst k \<le> 25 \<and> - 25 \<le> snd k \<and> snd k \<le> 25
      then Some (freshCell r (fst k) (snd k)) else None)"
  unfolding newGridManager_def initializeGrid_def fold_set_upto by (simp add: initialSize_def)

lemma bounds_newGridManager:
  "bounds (newGridManager r) =
     \<lparr>minX = - 25, maxX = 25, minZ = - 25, maxZ = 25, width = 50, height = 50\<rparr>"
  by (simp add: newGridManager_def initializeGrid_def initialSize_def)

lemma roadInterval_newGridManager: "roadInterval (newGridManager r) = r"
  by (simp add: newGridManager_def initializeGrid_def)

lemma grid_expandGrid:
  "grid (expandGrid gm) k =
     (case grid gm k of
        Some cell \<Rightarrow> Some cell
      | None \<Rightarrow>
          if minX (bounds (expandGrid gm)) \<le> fst k \<and> fst k \<le> maxX (bounds (expandGrid gm)) \<and>
             minZ (bounds (expandGrid gm)) \<le> snd k \<and> snd k \<le> maxZ (bounds (expandGrid gm))
          then Some (freshCell (roadInterval gm) (fst k) (snd k)) else None)"
  unfolding expandGrid_def Let_def fold_add_upto by (simp split: option.splits)

lemma bounds_expandGrid:
  "bounds (expandGrid gm) =
     \<lparr>minX = minX (bounds gm) - expansion (bounds gm),
      maxX = maxX (bounds gm) + expansion (bounds gm),
      minZ = minZ (bounds gm) - expansion (bounds gm),
      maxZ = maxZ (bounds gm) + expansion (bounds gm),
      width = width (bounds gm) + expansion (bounds gm) * 2,
      height = height (bounds gm) + expansion (bounds gm) * 2\<rparr>"
  by (simp add: expandGrid_def Let_def)

lemma roadInterval_expandGrid: "roadInterval (expandGrid gm) = roadInterval gm"
  by (simp add: expandGrid_def Let_def)


lemma grid_occupy:
  "grid (occupy gm p b) k =
     (if k = (xc p, zc p)
      then map_option (\<lambda>cell. cell\<lparr>state := OCCUPIED, buildingId := Some b\<rparr>) (grid gm k)
      else grid gm k)"
  by (simp add: occupy_def getGridKey_def split: option.splits)

lemma bounds_occupy: "bounds (occupy gm p b) = bounds gm"
  by (simp add: occupy_def split: option.splits)

lemma roadInterval_occupy: "roadInterval (occupy gm p b) = roadInterval gm"
  by (simp add: occupy_def split: option.splits)

lemma isValidPosition_cell:
  "isValidPosition gm c \<Longrightarrow> \<exists>cell. grid gm (xc c, zc c) = Some cell \<and> state cell = EMPTY"
  by (auto simp: isValidPosition_def getGridKey_def split: if_splits option.splits)

lemma set_ring: "0 \<le> r \<Longrightarrow> set (ring p r) = {c. chebyshev p c = r}"
proof (intro set_eqI iffI)
  fix c assume r: "0 \<le> r" and "c \<in> set (ring p r)"
  then show "c \<in> {c. chebyshev p c = r}"
    by (auto simp: ring_def chebyshev_def)
next
  fix c assume r: "0 \<le> r" and c: "c \<in> {c. chebyshev p c = r}"
  have "c = \<lparr>xc = xc p + (xc c - xc p), zc = zc p + (zc c - zc p)\<rparr>" by simp
  moreover from c r have "xc c - xc p \<in> {- r..r}" "zc c - zc p \<in> {- r..r}"
    "\<bar>xc c - xc p\<bar> = r \<or> \<bar>zc c - zc p\<bar> = r"
    by (auto simp: chebyshev_def)
  ultimately show "c \<in> set (ring p r)"
    unfolding ring_def by (auto simp del: GridCoordinate.simps intro!: bexI[of _ "xc c - xc p"] image_eqI[of _ _ "zc c - zc p"])
qed

lemma spiralSearch_Some:
  "spiralSearch gm p r m = Some c \<Longrightarrow>
     isValidPosition gm c \<and>
     (\<exists>r'. r \<le> r' \<and> r' \<le> m \<and> c \<in> set (ring p r') \<and>
           (\<forall>r''. r \<le> r'' \<and> r'' < r' \<longrightarrow> (\<forall>q \<in> set (ring p r''). \<not> isValidPosition gm q)))"
proof (induction gm p r m rule: spiralSearch.induct)
  case (1 gm p radius maxRadius)
  show ?case
  proof (cases "find (isValidPosition gm) (ring p radius)")
    case None
    with "1.prems" have le: "radius \<le> maxRadius"
      and rec: "spiralSearch gm p (radius + 1) maxRadius = Some c"
      by (auto simp: spiralSearch.simps[of gm p radius] split: if_splits)
    from "1.IH"[OF le None rec] obtain r' where v: "isValidPosition gm c"
      and r': "radius + 1 \<le> r'" "r' \<le> maxRadius" "c \<in> set (ring p r')"
      and mn: "\<forall>r''. radius + 1 \<le> r'' \<and> r'' < r' \<longrightarrow> (\<forall>q \<in> set (ring p r''). \<not> isValidPosition gm q)"
      by blast
    from None have none: "\<forall>q \<in> set (ring p radius). \<not> isValidPosition gm q"
      by (simp add: find_None_iff)
    have "\<forall>r''. radius \<le> r'' \<and> r'' < r' \<longrightarrow> (\<forall>q \<in> set (ring p r''). \<not> isValidPosition gm q)"
    proof (intro allI impI)
      fix r'' assume a: "radius \<le> r'' \<and> r'' < r'"
      show "\<forall>q \<in> set (ring p r''). \<not> isValidPosition gm q"
      proof (cases "r'' = radius")
        case True then show ?thesis using none by simp
      next
        case False
        with a have "radius + 1 \<le> r'' \<and> r'' < r'" by simp
        with mn show ?thesis by blast
      qed
    qed
    with v r' show ?thesis by (intro conjI exI[of _ r']) auto
  next
    case (Some d)
    with "1.prems" have le: "radius \<le> maxRadius" and dc: "d = c"
      by (auto simp: spiralSearch.simps[of gm p radius] split: if_splits)
    from Some dc have "isValidPosition gm c" "c \<in> set (ring p radius)"
      by (auto simp: find_Some_iff)
    with le show ?thesis by (intro conjI exI[of _ radius]) auto
  qed
qed

lemma spiralSearch_None:
  "spiralSearch gm p r m = None \<longleftrightarrow>
     (\<forall>r'. r \<le> r' \<and> r' \<le> m \<longrightarrow> (\<forall>q \<in> set (ring p r'). \<not> isValidPosition gm q))"
proof (induction gm p r m rule: spiralSearch.induct)
  case (1 gm p radius maxRadius)
  show ?case
  proof (cases "radius \<le> maxRadius")
    case False
    then show ?thesis by (auto simp: spiralSearch.simps[of gm p radius])
  next
    case le: True
    show ?thesis
    proof (cases "find (isValidPosition gm) (ring p radius)")
      case None
      then have none: "\<forall>q \<in> set (ring p radius). \<not> isValidPosition gm q"
        by (simp add: find_None_iff)
      have "spiralSearch gm p radius maxRadius = spiralSearch gm p (radius + 1) maxRadius"
        using le None by (simp add: spiralSearch.simps[of gm p radius])
      also have "\<dots> = None \<longleftrightarrow> (\<forall>r'. radius + 1 \<le> r' \<and> r' \<le> maxRadius \<longrightarrow>
           (\<forall>q \<in> set (ring p r'). \<not> isValidPosition gm q))"
        by (rule "1.IH"[OF le None])
      also have "\<dots> \<longleftrightarrow> (\<forall>r'. radius \<le> r' \<and> r' \<le> maxRadius \<longrightarrow>
           (\<forall>q \<in> set (ring p r'). \<not> isValidPosition gm q))"
      proof (intro iffI allI impI)
        fix r' assume h: "\<forall>r'. radius + 1 \<le> r' \<and> r' \<le> maxRadius \<longrightarrow>
           (\<forall>q \<in> set (ring p r'). \<not> isValidPosition gm q)" and a: "radius \<le> r' \<and> r' \<le> maxRadius"
        show "\<forall>q \<in> set (ring p r'). \<not> isValidPosition gm q"
        proof (cases "r' = radius")
          case True then show ?thesis using none by simp
        next
          case False with a have "radius + 1 \<le> r' \<and> r' \<le> maxRadius" by simp
          with h show ?thesis by blast
        qed
      next
        fix r' assume h: "\<forall>r'. radius \<le> r' \<and> r' \<le> maxRadius \<longrightarrow>
           (\<forall>q \<in> set (ring p r'). \<not> isValidPosition gm q)" and a: "radius + 1 \<le> r' \<and> r' \<le> maxRadius"
        then have "radius \<le> r' \<and> r' \<le> maxRadius" by simp
        with h show "\<forall>q \<in> set (ring p r'). \<not> isValidPosition gm q" by blast
      qed
      finally show ?thesis .
    next
      case (Some d)
      then have "isValidPosition gm d" "d \<in> set (ring p radius)"
        by (auto simp: find_Some_iff)
      moreover have "spiralSearch gm p radius maxRadius = Some d"
        using le Some by (simp add: spiralSearch.simps[of gm p radius])
      ultimately show ?thesis using le by auto
    qed
  qed
qed


lemma hash_d: "simpleHash ''d'' = 100"
  by (simp add: simpleHash_def hashStep_def)

lemma hash_e: "simpleHash ''e'' = 101"
  by (simp add: simpleHash_def hashStep_def)

lemma pref_d: "getHashedPosition (newGridManager 4) ''d'' = Some \<lparr>xc = - 25, zc = - 23\<rparr>"
  by (simp add: getHashedPosition_def hash_d bounds_newGridManager jsRem_def)

lemma valid_fresh:
  "isValidPosition (newGridManager r) c \<longleftrightarrow>
     - 25 \<le> xc c \<and> xc c \<le> 25 \<and> - 25 \<le> zc c \<and> zc c \<le> 25 \<and> \<not> isRoad r (xc c) (zc c)"
  by (auto simp: isValidPosition_def bounds_newGridManager grid_newGridManager getGridKey_def
      freshCell_def)

lemma alloc_d:
  "allocatePosition (newGridManager 4) ''d'' b =
     (occupy (newGridManager 4) \<lparr>xc = - 25, zc = - 23\<rparr> b, Inr \<lparr>xc = - 25, zc = - 23\<rparr>)"
  by (simp add: allocatePosition_def pref_d findAvailablePosition_def valid_fresh isRoad_def jsRem_def)


lemma findAvailablePosition_valid:
  "findAvailablePosition gm pp = Some c \<Longrightarrow> isValidPosition gm c"
  by (auto simp: findAvailablePosition_def split: option.splits if_splits
      dest: spiralSearch_Some)

lemma grid_expandGrid_old: "grid gm k = Some cell \<Longrightarrow> grid (expandGrid gm) k = Some cell"
  by (simp add: grid_expandGrid)

lemma allocatePosition_cases:
  assumes "allocatePosition gm path bid = (gm', Inr p)"
  obtains (direct) "findAvailablePosition gm (getHashedPosition gm path) = Some p"
      "gm' = occupy gm p bid"
  | (expanded) "findAvailablePosition gm (getHashedPosition gm path) = None"
      "findAvailablePosition (expandGrid gm) (getHashedPosition gm path) = Some p"
      "gm' = occupy (expandGrid gm) p bid"
  using assms by (auto simp: allocatePosition_def Let_def split: option.splits)

section \<open>Allocation changes one cell\<close>

text \<open>
  Claim C10. A successful \<^verbatim>\<open>allocatePosition\<close> that returns position \<open>p\<close> leaves every
  cell that existed before, other than the one at \<open>p\<close>, exactly as it was; the cell at
  \<open>p\<close> was \<open>EMPTY\<close> (in the grid as it was, or as expanded when the first search
  failed) and is now \<open>OCCUPIED\<close> with the given building id. Expansion keeps every
  cell it finds and adds fresh cells, within the enlarged bounds only.
\<close>

theorem allocate_frame:
  "allocatePosition gm path bid = (gm', Inr p) \<Longrightarrow>
     (\<forall>k. k \<noteq> (xc p, zc p) \<longrightarrow> grid gm k \<noteq> None \<longrightarrow> grid gm' k = grid gm k) \<and>
     (\<forall>cell. grid gm (xc p, zc p) = Some cell \<longrightarrow> state cell = EMPTY) \<and>
     (\<exists>cell. grid (if findAvailablePosition gm (getHashedPosition gm path) = None
                     then expandGrid gm else gm) (xc p, zc p) = Some cell \<and>
             state cell = EMPTY \<and>
             grid gm' (xc p, zc p) = Some (cell\<lparr>state := OCCUPIED, buildingId := Some bid\<rparr>)) \<and>
     (\<forall>k cell. grid gm k = Some cell \<longrightarrow> grid (expandGrid gm) k = Some cell) \<and>
     (\<forall>k. grid gm k = None \<longrightarrow>
          grid (expandGrid gm) k =
            (if minX (bounds (expandGrid gm)) \<le> fst k \<and> fst k \<le> maxX (bounds (expandGrid gm)) \<and>
                minZ (bounds (expandGrid gm)) \<le> snd k \<and> snd k \<le> maxZ (bounds (expandGrid gm))
             then Some (freshCell (roadInterval gm) (fst k) (snd k)) else None))"
proof -
  assume a: "allocatePosition gm path bid = (gm', Inr p)"
  have old: "\<forall>k cell. grid gm k = Some cell \<longrightarrow> grid (expandGrid gm) k = Some cell"
    by (simp add: grid_expandGrid)
  have new: "\<forall>k. grid gm k = None \<longrightarrow>
          grid (expandGrid gm) k =
            (if minX (bounds (expandGrid gm)) \<le> fst k \<and> fst k \<le> maxX (bounds (expandGrid gm)) \<and>
                minZ (bounds (expandGrid gm)) \<le> snd k \<and> snd k \<le> maxZ (bounds (expandGrid gm))
             then Some (freshCell (roadInterval gm) (fst k) (snd k)) else None)"
    by (simp add: grid_expandGrid)
  from a show ?thesis
  proof (cases rule: allocatePosition_cases)
    case direct
    from findAvailablePosition_valid[OF direct(1)] obtain cell where
      c: "grid gm (xc p, zc p) = Some cell" "state cell = EMPTY"
      by (blast dest: isValidPosition_cell)
    have 1: "\<forall>k. k \<noteq> (xc p, zc p) \<longrightarrow> grid gm k \<noteq> None \<longrightarrow> grid gm' k = grid gm k"
      by (simp add: direct(2) grid_occupy)
    have 2: "\<forall>cell. grid gm (xc p, zc p) = Some cell \<longrightarrow> state cell = EMPTY"
      using c by simp
    have 3: "\<exists>cell. grid (if findAvailablePosition gm (getHashedPosition gm path) = None
                     then expandGrid gm else gm) (xc p, zc p) = Some cell \<and>
             state cell = EMPTY \<and>
             grid gm' (xc p, zc p) = Some (cell\<lparr>state := OCCUPIED, buildingId := Some bid\<rparr>)"
      using c by (simp add: direct grid_occupy)
    show ?thesis by (intro conjI 1 2 3 old new)
  next
    case expanded
    from findAvailablePosition_valid[OF expanded(2)] obtain cell where
      c: "grid (expandGrid gm) (xc p, zc p) = Some cell" "state cell = EMPTY"
      by (blast dest: isValidPosition_cell)
    have 1: "\<forall>k. k \<noteq> (xc p, zc p) \<longrightarrow> grid gm k \<noteq> None \<longrightarrow> grid gm' k = grid gm k"
      by (auto simp: expanded(3) grid_occupy grid_expandGrid)
    have 2: "\<forall>cell. grid gm (xc p, zc p) = Some cell \<longrightarrow> state cell = EMPTY"
      using c by (auto simp: grid_expandGrid)
    have 3: "\<exists>cell. grid (if findAvailablePosition gm (getHashedPosition gm path) = None
                     then expandGrid gm else gm) (xc p, zc p) = Some cell \<and>
             state cell = EMPTY \<and>
             grid gm' (xc p, zc p) = Some (cell\<lparr>state := OCCUPIED, buildingId := Some bid\<rparr>)"
      using c by (simp add: expanded grid_occupy)
    show ?thesis by (intro conjI 1 2 3 old new)
  qed
qed

theorem allocate_frame_witness:
  "allocatePosition (newGridManager 4) ''d'' ''b1'' =
     (occupy (newGridManager 4) \<lparr>xc = - 25, zc = - 23\<rparr> ''b1'', Inr \<lparr>xc = - 25, zc = - 23\<rparr>) \<and>
   grid (occupy (newGridManager 4) \<lparr>xc = - 25, zc = - 23\<rparr> ''b1'') (3, 5) =
     grid (newGridManager 4) (3, 5) \<and>
   grid (newGridManager 4) (3, 5) \<noteq> None \<and>
   map_option state (grid (newGridManager 4) (- 25, - 23)) = Some EMPTY \<and>
   map_option state (grid (occupy (newGridManager 4) \<lparr>xc = - 25, zc = - 23\<rparr> ''b1'') (- 25, - 23)) =
     Some OCCUPIED \<and>
   grid (expandGrid (newGridManager 4)) (3, 5) = grid (newGridManager 4) (3, 5) \<and>
   grid (newGridManager 4) (30, 1) = None \<and>
   map_option state (grid (expandGrid (newGridManager 4)) (30, 1)) = Some EMPTY"
proof -
  let ?p = "\<lparr>xc = - 25, zc = - 23\<rparr>"
  have h: "allocatePosition (newGridManager 4) ''d'' ''b1'' =
     (occupy (newGridManager 4) ?p ''b1'', Inr ?p)"
    by (rule alloc_d)
  have g: "grid (newGridManager 4) (3, 5) = Some (freshCell 4 3 5)"
    by (simp add: grid_newGridManager)
  have n: "grid (newGridManager 4) (30, 1) = None"
    by (simp add: grid_newGridManager)
  have f: "findAvailablePosition (newGridManager 4) (getHashedPosition (newGridManager 4) ''d'') \<noteq> None"
    by (simp add: pref_d findAvailablePosition_def valid_fresh isRoad_def jsRem_def)
  note t = allocate_frame[OF h]
  from t have
    a: "((3::int), (5::int)) \<noteq> (- 25, - 23) \<longrightarrow> grid (newGridManager 4) (3, 5) \<noteq> None \<longrightarrow>
        grid (occupy (newGridManager 4) ?p ''b1'') (3, 5) = grid (newGridManager 4) (3, 5)"
    and b: "\<exists>cell. grid (newGridManager 4) (- 25, - 23) = Some cell \<and> state cell = EMPTY \<and>
       grid (occupy (newGridManager 4) ?p ''b1'') (- 25, - 23) =
         Some (cell\<lparr>state := OCCUPIED, buildingId := Some ''b1''\<rparr>)"
    using f by simp_all
  from t have c: "grid (newGridManager 4) (3, 5) = Some (freshCell 4 3 5) \<longrightarrow>
      grid (expandGrid (newGridManager 4)) (3, 5) = Some (freshCell 4 3 5)"
    by blast
  from t have d: "grid (newGridManager 4) (30, 1) = None \<longrightarrow>
      grid (expandGrid (newGridManager 4)) (30, 1) =
        (if minX (bounds (expandGrid (newGridManager 4))) \<le> fst ((30::int), (1::int)) \<and>
            fst ((30::int), (1::int)) \<le> maxX (bounds (expandGrid (newGridManager 4))) \<and>
            minZ (bounds (expandGrid (newGridManager 4))) \<le> snd ((30::int), (1::int)) \<and>
            snd ((30::int), (1::int)) \<le> maxZ (bounds (expandGrid (newGridManager 4)))
         then Some (freshCell (roadInterval (newGridManager 4)) (fst ((30::int), (1::int)))
                      (snd ((30::int), (1::int))))
         else None)"
    by blast
  from a g have 1: "grid (occupy (newGridManager 4) ?p ''b1'') (3, 5) =
     grid (newGridManager 4) (3, 5)" by simp
  from g have 0: "grid (newGridManager 4) (3, 5) \<noteq> None" by simp
  from b have 2: "map_option state (grid (newGridManager 4) (- 25, - 23)) = Some EMPTY"
    and 3: "map_option state (grid (occupy (newGridManager 4) ?p ''b1'') (- 25, - 23)) =
     Some OCCUPIED" by auto
  from c g have 4: "grid (expandGrid (newGridManager 4)) (3, 5) = grid (newGridManager 4) (3, 5)"
    by simp
  from d n have 5: "map_option state (grid (expandGrid (newGridManager 4)) (30, 1)) = Some EMPTY"
    by (simp add: bounds_expandGrid bounds_newGridManager expansion_def roadInterval_newGridManager
        freshCell_def isRoad_def jsRem_def)
  from h 1 0 2 3 4 n 5 show ?thesis by (intro conjI)
qed

lemma jsRem_zero_iff: "jsRem a b = Some 0 \<longleftrightarrow> b \<noteq> 0 \<and> b dvd a"
proof (cases "b = 0")
  case True then show ?thesis by (simp add: jsRem_def)
next
  case False
  have "sgn a * (\<bar>a\<bar> mod \<bar>b\<bar>) = 0 \<longleftrightarrow> \<bar>a\<bar> mod \<bar>b\<bar> = 0"
    by (cases "a = 0") (auto simp: sgn_if)
  also have "\<dots> \<longleftrightarrow> \<bar>b\<bar> dvd \<bar>a\<bar>" by (simp add: dvd_eq_mod_eq_0)
  also have "\<dots> \<longleftrightarrow> b dvd a" by simp
  finally show ?thesis using False by (simp add: jsRem_def)
qed

lemma isRoad_dvd: "isRoad r x z \<longleftrightarrow> r \<noteq> 0 \<and> (r dvd x \<or> r dvd z)"
  by (auto simp: isRoad_def jsRem_zero_iff)

lemma chebyshev_nonneg: "0 \<le> chebyshev p c"
  by (simp add: chebyshev_def)

lemma chebyshev_zero: "chebyshev p c = 0 \<longleftrightarrow> c = p"
  by (auto simp: chebyshev_def max_def split: if_splits)

lemma in_ring: "0 \<le> chebyshev p c \<Longrightarrow> c \<in> set (ring p (chebyshev p c))"
  by (simp add: set_ring)


lemma findAvailablePosition_None:
  "findAvailablePosition gm (Some p) = None \<longleftrightarrow>
     (\<forall>q. isValidPosition gm q \<longrightarrow>
          max 0 (max (width (bounds gm)) (height (bounds gm))) < chebyshev p q)"
  (is "?l \<longleftrightarrow> ?r")
proof
  let ?m = "max (width (bounds gm)) (height (bounds gm))"
  assume l: ?l
  then have np: "\<not> isValidPosition gm p" and sp: "spiralSearch gm p 1 ?m = None"
    by (auto simp: findAvailablePosition_def split: if_splits)
  show ?r
  proof (intro allI impI, rule ccontr)
    fix q assume q: "isValidPosition gm q" and "\<not> max 0 ?m < chebyshev p q"
    then have le: "chebyshev p q \<le> max 0 ?m" by linarith
    from np q have "q \<noteq> p" by auto
    then have "chebyshev p q \<noteq> 0" by (simp add: chebyshev_zero)
    with chebyshev_nonneg[of p q] have 1: "1 \<le> chebyshev p q" by simp
    with le have "chebyshev p q \<le> ?m" by simp
    with 1 sp have "\<forall>q' \<in> set (ring p (chebyshev p q)). \<not> isValidPosition gm q'"
      by (simp add: spiralSearch_None)
    moreover have "q \<in> set (ring p (chebyshev p q))" by (simp add: set_ring chebyshev_nonneg)
    ultimately show False using q by blast
  qed
next
  let ?m = "max (width (bounds gm)) (height (bounds gm))"
  assume r: ?r
  have "\<not> isValidPosition gm p"
  proof
    assume "isValidPosition gm p"
    with r have "max 0 ?m < chebyshev p p" by blast
    then show False by (simp add: chebyshev_def)
  qed
  moreover have "spiralSearch gm p 1 ?m = None"
    unfolding spiralSearch_None
  proof (intro allI impI ballI)
    fix r' q assume a: "1 \<le> r' \<and> r' \<le> ?m" and "q \<in> set (ring p r')"
    then have "chebyshev p q = r'" by (simp add: set_ring)
    with a have "\<not> max 0 ?m < chebyshev p q" by linarith
    with r show "\<not> isValidPosition gm q" by blast
  qed
  ultimately show ?l by (simp add: findAvailablePosition_def)
qed








section \<open>The allocation algorithm\<close>



lemma same_layout_cell:
  "same_layout gm1 gm2 \<Longrightarrow> map_option state (grid gm1 k) = map_option state (grid gm2 k)"
  by (cases k) (simp add: same_layout_def)

lemma isValidPosition_alt:
  "isValidPosition gm c \<longleftrightarrow>
     minX (bounds gm) \<le> xc c \<and> xc c \<le> maxX (bounds gm) \<and>
     minZ (bounds gm) \<le> zc c \<and> zc c \<le> maxZ (bounds gm) \<and>
     map_option state (grid gm (xc c, zc c)) = Some EMPTY"
  by (auto simp: isValidPosition_def getGridKey_def split: option.splits)

lemma isValidPosition_same_layout:
  "same_layout gm1 gm2 \<Longrightarrow> isValidPosition gm1 = isValidPosition gm2"
  by (rule ext) (simp add: isValidPosition_alt same_layout_def)

lemma spiralSearch_cong:
  "isValidPosition gm1 = isValidPosition gm2 \<Longrightarrow>
     spiralSearch gm1 p r m = spiralSearch gm2 p r m"
proof (induction gm1 p r m rule: spiralSearch.induct)
  case (1 gm p radius maxRadius)
  show ?case
  proof (cases "radius \<le> maxRadius")
    case False
    then show ?thesis
      by (simp add: spiralSearch.simps[of gm p radius] spiralSearch.simps[of gm2 p radius])
  next
    case True
    show ?thesis
    proof (cases "find (isValidPosition gm) (ring p radius)")
      case None
      from "1.IH"[OF True None "1.prems"] None True "1.prems" show ?thesis
        by (simp add: spiralSearch.simps[of gm p radius] spiralSearch.simps[of gm2 p radius])
    next
      case (Some d)
      with True "1.prems" show ?thesis
        by (simp add: spiralSearch.simps[of gm p radius] spiralSearch.simps[of gm2 p radius])
    qed
  qed
qed

lemma findAvailablePosition_same_layout:
  assumes s: "same_layout gm1 gm2"
  shows "findAvailablePosition gm1 pp = findAvailablePosition gm2 pp"
proof (cases pp)
  case None
  then show ?thesis by (simp add: findAvailablePosition_def)
next
  case (Some p)
  note v = isValidPosition_same_layout[OF s]
  from s have b: "bounds gm1 = bounds gm2" by (simp add: same_layout_def)
  show ?thesis
    unfolding findAvailablePosition_def Some
    by (simp add: v b spiralSearch_cong[OF v])
qed

lemma getHashedPosition_bounds:
  "bounds gm1 = bounds gm2 \<Longrightarrow> getHashedPosition gm1 path = getHashedPosition gm2 path"
  by (simp add: getHashedPosition_def)

lemma same_layout_expandGrid:
  assumes s: "same_layout gm1 gm2"
  shows "same_layout (expandGrid gm1) (expandGrid gm2)"
proof -
  from s have b: "bounds gm1 = bounds gm2" and r: "roadInterval gm1 = roadInterval gm2"
    by (simp_all add: same_layout_def)
  have "map_option state (grid (expandGrid gm1) k) = map_option state (grid (expandGrid gm2) k)" for k
  proof (cases "grid gm1 k")
    case None
    with same_layout_cell[OF s, of k] have "grid gm2 k = None" by simp
    with None show ?thesis by (simp add: grid_expandGrid bounds_expandGrid b r)
  next
    case (Some c1)
    with same_layout_cell[OF s, of k] obtain c2 where "grid gm2 k = Some c2" "state c2 = state c1"
      by (cases "grid gm2 k") auto
    with Some show ?thesis by (simp add: grid_expandGrid)
  qed
  then show ?thesis
    unfolding same_layout_def by (simp add: bounds_expandGrid roadInterval_expandGrid b r)
qed

lemma same_layout_occupy:
  assumes s: "same_layout gm1 gm2"
  shows "same_layout (occupy gm1 p b1) (occupy gm2 p b2)"
proof -
  from s have b: "bounds gm1 = bounds gm2" and r: "roadInterval gm1 = roadInterval gm2"
    by (simp_all add: same_layout_def)
  have "map_option state (grid (occupy gm1 p b1) k) = map_option state (grid (occupy gm2 p b2) k)" for k
  proof (cases "grid gm1 k")
    case None
    with same_layout_cell[OF s, of k] have "grid gm2 k = None" by simp
    with None show ?thesis by (auto simp: grid_occupy)
  next
    case (Some c1)
    with same_layout_cell[OF s, of k] obtain c2 where "grid gm2 k = Some c2" "state c2 = state c1"
      by (cases "grid gm2 k") auto
    with Some show ?thesis by (auto simp: grid_occupy)
  qed
  then show ?thesis
    unfolding same_layout_def by (simp add: bounds_occupy roadInterval_occupy b r)
qed

lemma allocatePosition_eq:
  "allocatePosition gm path bid =
     (case findAvailablePosition gm (getHashedPosition gm path) of
        Some c \<Rightarrow> (occupy gm c bid, Inr c)
      | None \<Rightarrow>
          (case findAvailablePosition (expandGrid gm) (getHashedPosition gm path) of
             None \<Rightarrow> (expandGrid gm, Inl (UnableToAllocate path))
           | Some c \<Rightarrow> (occupy (expandGrid gm) c bid, Inr c)))"
  by (simp add: allocatePosition_def Let_def split: option.splits)

lemma allocatePosition_same_layout:
  assumes s: "same_layout gm1 gm2"
  shows "snd (allocatePosition gm1 path b1) = snd (allocatePosition gm2 path b2) \<and>
         same_layout (fst (allocatePosition gm1 path b1)) (fst (allocatePosition gm2 path b2))"
proof -
  let ?pp = "getHashedPosition gm2 path"
  from s have "bounds gm1 = bounds gm2" by (simp add: same_layout_def)
  then have h: "getHashedPosition gm1 path = ?pp" by (rule getHashedPosition_bounds)
  have f: "findAvailablePosition gm1 ?pp = findAvailablePosition gm2 ?pp"
    by (rule findAvailablePosition_same_layout[OF s])
  note e = same_layout_expandGrid[OF s]
  have fe: "findAvailablePosition (expandGrid gm1) ?pp = findAvailablePosition (expandGrid gm2) ?pp"
    by (rule findAvailablePosition_same_layout[OF e])
  show ?thesis
  proof (cases "findAvailablePosition gm2 ?pp")
    case (Some c)
    have "allocatePosition gm1 path b1 = (occupy gm1 c b1, Inr c)"
      unfolding allocatePosition_eq h f Some by simp
    moreover have "allocatePosition gm2 path b2 = (occupy gm2 c b2, Inr c)"
      unfolding allocatePosition_eq Some by simp
    ultimately show ?thesis using same_layout_occupy[OF s, of c b1 b2] by simp
  next
    case None
    show ?thesis
    proof (cases "findAvailablePosition (expandGrid gm2) ?pp")
      case (Some c)
      have "allocatePosition gm1 path b1 = (occupy (expandGrid gm1) c b1, Inr c)"
        unfolding allocatePosition_eq h f fe None Some by simp
      moreover have "allocatePosition gm2 path b2 = (occupy (expandGrid gm2) c b2, Inr c)"
        unfolding allocatePosition_eq None Some by simp
      ultimately show ?thesis using same_layout_occupy[OF e, of c b1 b2] by simp
    next
      case n2: None
      have "allocatePosition gm1 path b1 = (expandGrid gm1, Inl (UnableToAllocate path))"
        unfolding allocatePosition_eq h f fe None n2 by simp
      moreover have "allocatePosition gm2 path b2 = (expandGrid gm2, Inl (UnableToAllocate path))"
        unfolding allocatePosition_eq None n2 by simp
      ultimately show ?thesis using e by simp
    qed
  qed
qed

lemma same_layout_refl: "same_layout gm gm"
  by (simp add: same_layout_def)

section \<open>Placement is deterministic\<close>

text \<open>
  Claim C7. The preferred position of a key depends on the bounds only, so two grid
  managers with the same bounds compute the same one. Two allocations of the same
  key on freshly initialised grid managers with the same road interval return the
  same result, whatever building ids the two runs pass. More generally, two grid
  managers with the same layout return the same result and have the same layout
  afterwards.
\<close>

theorem placement_deterministic:
  "(bounds gm1 = bounds gm2 \<longrightarrow> getHashedPosition gm1 path = getHashedPosition gm2 path) \<and>
   snd (allocatePosition (newGridManager r) path b1) =
     snd (allocatePosition (newGridManager r) path b2) \<and>
   (same_layout gm1 gm2 \<longrightarrow>
      snd (allocatePosition gm1 path b1) = snd (allocatePosition gm2 path b2) \<and>
      same_layout (fst (allocatePosition gm1 path b1)) (fst (allocatePosition gm2 path b2)))"
proof (intro conjI impI)
  assume "bounds gm1 = bounds gm2"
  then show "getHashedPosition gm1 path = getHashedPosition gm2 path"
    by (rule getHashedPosition_bounds)
next
  show "snd (allocatePosition (newGridManager r) path b1) =
     snd (allocatePosition (newGridManager r) path b2)"
    using allocatePosition_same_layout[OF same_layout_refl] by (rule conjunct1)
next
  assume "same_layout gm1 gm2"
  then show "snd (allocatePosition gm1 path b1) = snd (allocatePosition gm2 path b2)"
    using allocatePosition_same_layout by blast
next
  assume "same_layout gm1 gm2"
  then show "same_layout (fst (allocatePosition gm1 path b1)) (fst (allocatePosition gm2 path b2))"
    using allocatePosition_same_layout by blast
qed

theorem placement_deterministic_witness:
  "bounds (occupy (newGridManager 4) \<lparr>xc = - 25, zc = - 23\<rparr> ''b1'') =
     bounds (occupy (newGridManager 4) \<lparr>xc = - 25, zc = - 23\<rparr> ''b2'') \<and>
   same_layout (occupy (newGridManager 4) \<lparr>xc = - 25, zc = - 23\<rparr> ''b1'')
     (occupy (newGridManager 4) \<lparr>xc = - 25, zc = - 23\<rparr> ''b2'') \<and>
   getHashedPosition (occupy (newGridManager 4) \<lparr>xc = - 25, zc = - 23\<rparr> ''b1'') ''e'' =
     getHashedPosition (occupy (newGridManager 4) \<lparr>xc = - 25, zc = - 23\<rparr> ''b2'') ''e'' \<and>
   snd (allocatePosition (occupy (newGridManager 4) \<lparr>xc = - 25, zc = - 23\<rparr> ''b1'') ''e'' ''b3'') =
     snd (allocatePosition (occupy (newGridManager 4) \<lparr>xc = - 25, zc = - 23\<rparr> ''b2'') ''e'' ''b4'')"
proof -
  let ?g1 = "occupy (newGridManager 4) \<lparr>xc = - 25, zc = - 23\<rparr> ''b1''"
  let ?g2 = "occupy (newGridManager 4) \<lparr>xc = - 25, zc = - 23\<rparr> ''b2''"
  have b: "bounds ?g1 = bounds ?g2" by (simp add: bounds_occupy)
  have s: "same_layout ?g1 ?g2" by (rule same_layout_occupy[OF same_layout_refl])
  note d = placement_deterministic[of ?g1 ?g2 "''e''" 4 "''b3''" "''b4''"]
  from d b have 1: "getHashedPosition ?g1 ''e'' = getHashedPosition ?g2 ''e''" by blast
  from d s have 2: "snd (allocatePosition ?g1 ''e'' ''b3'') = snd (allocatePosition ?g2 ''e'' ''b4'')"
    by blast
  from b s 1 2 show ?thesis by (intro conjI)
qed

section \<open>Evaluating concrete runs\<close>

lemma grid_freePosition:
  "grid (fst (freePosition gm p)) k =
     (if k = (xc p, zc p)
      then map_option (\<lambda>cell. if state cell = OCCUPIED
                             then cell\<lparr>state := EMPTY, buildingId := None, reservedBy := None\<rparr>
                             else cell) (grid gm k)
      else grid gm k)"
  by (simp add: freePosition_def getGridKey_def split: option.splits)

lemma bounds_freePosition: "bounds (fst (freePosition gm p)) = bounds gm"
  by (simp add: freePosition_def split: option.splits)

lemma roadInterval_freePosition: "roadInterval (fst (freePosition gm p)) = roadInterval gm"
  by (simp add: freePosition_def split: option.splits)

lemmas grid_eval =
  isValidPosition_alt grid_occupy bounds_occupy grid_freePosition bounds_freePosition
  grid_newGridManager bounds_newGridManager freshCell_def isRoad_dvd

lemmas hash_eval = getHashedPosition_def simpleHash_def hashStep_def jsRem_def


lemma roadInterval_defaultConfig: "roadInterval_cfg defaultConfig = 4"
  by (simp add: defaultConfig_def)

lemma timestamp_layerOf: "timestamp (layerOf fc (commitAt t)) = t"
  by (simp add: layerOf_def commitAt_def)

lemmas engine_eval =
  processFileChange_def change_def moveTo_def sourcePath_def ids_def
  freshEngine_def newCityGeneratorCore_def newFileTracker_def roadInterval_defaultConfig
  handleFileCreation_def handleFileModification_def handleFileDeletion_def handleFileMove_def
  getBuilding_def createBuilding_def addLayer_def deleteBuilding_def moveBuilding_def
  emitUpdateEvent_def determineFileType_def lastSegment_def toLowerCase_def Let_def
  timestamp_layerOf

lemma upto_ring_1: "[- 1..1] = [- 1, 0, 1 :: int]"
  by (simp add: upto.simps)

lemmas alloc_eval =
  allocatePosition_eq findAvailablePosition_def hash_eval grid_eval
  spiralSearch.simps[of _ _ 1] ring_def upto_ring_1

lemmas query_eval =
  getAllBuildings_def cellState_def getCell_def getGridKey_def hasActiveBuilding_def

section \<open>Runs on which the engine leaves its ledger and its grid inconsistent\<close>

text \<open>
  Claim C2 (no two active buildings on one coordinate, no \<open>OCCUPIED\<close> cell on a road
  line, no \<open>ROAD\<close> cell ever claimed). The first part fails on the run
  \<^verbatim>\<open>CREATE d, CREATE h, MOVE d -> h, CREATE e\<close> from a fresh engine with the default
  configuration: the move onto the active key \<^verbatim>\<open>h\<close> frees the cell of \<^verbatim>\<open>d\<close> before
  \<^verbatim>\<open>moveBuilding\<close> refuses, and the creation of \<^verbatim>\<open>e\<close> is then given that cell.
  Afterwards \<^verbatim>\<open>d\<close> and \<^verbatim>\<open>e\<close> are both active at \<open>(-25, -23)\<close>.
\<close>

theorem two_active_buildings_one_coordinate:
  "map (\<lambda>b. (filePath b, isActive b, position b))
     (getAllBuildings (fileTracker (processChanges
        [(ids ''1'', change CREATE ''d'', commitAt 1),
         (ids ''2'', change CREATE ''h'', commitAt 2),
         (ids ''3'', moveTo ''d'' ''h'', commitAt 3),
         (ids ''4'', change CREATE ''e'', commitAt 4)] freshEngine))) =
   [(''d'', True, \<lparr>xc = - 25, zc = - 23\<rparr>),
    (''h'', True, \<lparr>xc = - 21, zc = - 23\<rparr>),
    (''e'', True, \<lparr>xc = - 25, zc = - 23\<rparr>)]"
  by (simp add: engine_eval alloc_eval query_eval)

text \<open>
  Claim C3 (a move onto an active key is reported, leaves the source where it was, and
  leaves neither an \<open>OCCUPIED\<close> cell without a building nor a building without a
  cell). On the run \<^verbatim>\<open>CREATE d, CREATE h, MOVE d -> h\<close> the ledger keeps \<^verbatim>\<open>d\<close> active at
  \<open>(-25, -23)\<close>, but that cell is \<open>EMPTY\<close>; the cell \<open>(-22, -23)\<close>, where no building
  is recorded, is \<open>OCCUPIED\<close> under the id of \<^verbatim>\<open>d\<close>; and the move adds nothing to the
  console output or to the emitted events.
\<close>

theorem move_onto_active_key_run:
  "map (\<lambda>b. (filePath b, isActive b, position b))
     (getAllBuildings (fileTracker (processChanges
        [(ids ''1'', change CREATE ''d'', commitAt 1),
         (ids ''2'', change CREATE ''h'', commitAt 2),
         (ids ''3'', moveTo ''d'' ''h'', commitAt 3)] freshEngine))) =
   [(''d'', True, \<lparr>xc = - 25, zc = - 23\<rparr>), (''h'', True, \<lparr>xc = - 21, zc = - 23\<rparr>)] \<and>
   cellState (gridManager (processChanges
        [(ids ''1'', change CREATE ''d'', commitAt 1),
         (ids ''2'', change CREATE ''h'', commitAt 2),
         (ids ''3'', moveTo ''d'' ''h'', commitAt 3)] freshEngine)) \<lparr>xc = - 25, zc = - 23\<rparr> =
     Some EMPTY \<and>
   map_option (\<lambda>cell. (state cell, buildingId cell))
     (getCell (gridManager (processChanges
        [(ids ''1'', change CREATE ''d'', commitAt 1),
         (ids ''2'', change CREATE ''h'', commitAt 2),
         (ids ''3'', moveTo ''d'' ''h'', commitAt 3)] freshEngine)) \<lparr>xc = - 22, zc = - 23\<rparr>) =
     Some (OCCUPIED, Some ''building_b1'') \<and>
   trace (processChanges
        [(ids ''1'', change CREATE ''d'', commitAt 1),
         (ids ''2'', change CREATE ''h'', commitAt 2),
         (ids ''3'', moveTo ''d'' ''h'', commitAt 3)] freshEngine) =
   trace (processChanges
        [(ids ''1'', change CREATE ''d'', commitAt 1),
         (ids ''2'', change CREATE ''h'', commitAt 2)] freshEngine)"
  by (simp add: engine_eval alloc_eval query_eval)

text \<open>
  Claim C5 (a \<^verbatim>\<open>DELETE\<close> for a key with no active building is skipped and changes
  nothing). On the run \<^verbatim>\<open>CREATE d, DELETE d, CREATE e, DELETE d\<close> the key \<^verbatim>\<open>d\<close> is retired
  when the second \<^verbatim>\<open>DELETE\<close> arrives, yet the event appends a third layer to \<^verbatim>\<open>d\<close>,
  moves its last-modified time and frees the cell \<open>(-25, -23)\<close>, which by then
  belongs to the active building \<^verbatim>\<open>e\<close>.
\<close>

theorem delete_retired_key_run:
  "\<not> hasActiveBuilding (fileTracker (processChanges
        [(ids ''1'', change CREATE ''d'', commitAt 1),
         (ids ''2'', change DELETE ''d'', commitAt 2),
         (ids ''3'', change CREATE ''e'', commitAt 3)] freshEngine)) ''d'' \<and>
   map (\<lambda>b. (filePath b, isActive b, length (layers b), lastModified b, position b))
     (getAllBuildings (fileTracker (processChanges
        [(ids ''1'', change CREATE ''d'', commitAt 1),
         (ids ''2'', change DELETE ''d'', commitAt 2),
         (ids ''3'', change CREATE ''e'', commitAt 3)] freshEngine))) =
   [(''d'', False, 2, 2, \<lparr>xc = - 25, zc = - 23\<rparr>), (''e'', True, 1, 3, \<lparr>xc = - 25, zc = - 23\<rparr>)] \<and>
   cellState (gridManager (processChanges
        [(ids ''1'', change CREATE ''d'', commitAt 1),
         (ids ''2'', change DELETE ''d'', commitAt 2),
         (ids ''3'', change CREATE ''e'', commitAt 3)] freshEngine)) \<lparr>xc = - 25, zc = - 23\<rparr> =
     Some OCCUPIED \<and>
   map (\<lambda>b. (filePath b, isActive b, length (layers b), lastModified b, position b))
     (getAllBuildings (fileTracker (processChanges
        [(ids ''1'', change CREATE ''d'', commitAt 1),
         (ids ''2'', change DELETE ''d'', commitAt 2),
         (ids ''3'', change CREATE ''e'', commitAt 3),
         (ids ''4'', change DELETE ''d'', commitAt 4)] freshEngine))) =
   [(''d'', False, 3, 4, \<lparr>xc = - 25, zc = - 23\<rparr>), (''e'', True, 1, 3, \<lparr>xc = - 25, zc = - 23\<rparr>)] \<and>
   cellState (gridManager (processChanges
        [(ids ''1'', change CREATE ''d'', commitAt 1),
         (ids ''2'', change DELETE ''d'', commitAt 2),
         (ids ''3'', change CREATE ''e'', commitAt 3),
         (ids ''4'', change DELETE ''d'', commitAt 4)] freshEngine)) \<lparr>xc = - 25, zc = - 23\<rparr> =
     Some EMPTY"
  by (simp add: engine_eval alloc_eval query_eval)

lemmas import_eval =
  importCityData_def exportCityData_def exportData_def importData_def clear_def
  rebuildGridFromBuildings_def getActiveBuildings_def

text \<open>
  Claim C1 (importing an export restores the ledger and the partition of the grid).
  On the state after \<^verbatim>\<open>CREATE d, CREATE e, DELETE d\<close> the cell \<open>(-25, -22)\<close> of \<^verbatim>\<open>e\<close> is
  \<open>OCCUPIED\<close> and the cell \<open>(-25, -23)\<close> is \<open>EMPTY\<close>. Importing the export into a fresh
  engine gives the opposite: \<^verbatim>\<open>rebuildGridFromBuildings\<close> allocates by the key again and
  does not use the recorded position. Importing it into the exporting engine itself
  leaves both cells \<open>OCCUPIED\<close>. The ledger is restored in both cases.
\<close>

theorem import_export_run:
  "map (\<lambda>p. cellState (gridManager (processChanges
        [(ids ''1'', change CREATE ''d'', commitAt 1),
         (ids ''2'', change CREATE ''e'', commitAt 2),
         (ids ''3'', change DELETE ''d'', commitAt 3)] freshEngine)) p)
      [\<lparr>xc = - 25, zc = - 23\<rparr>, \<lparr>xc = - 25, zc = - 22\<rparr>] =
     [Some EMPTY, Some OCCUPIED] \<and>
   map (\<lambda>p. cellState (gridManager (importCityData (exportCityData 4 (processChanges
        [(ids ''1'', change CREATE ''d'', commitAt 1),
         (ids ''2'', change CREATE ''e'', commitAt 2),
         (ids ''3'', change DELETE ''d'', commitAt 3)] freshEngine)) freshEngine)) p)
      [\<lparr>xc = - 25, zc = - 23\<rparr>, \<lparr>xc = - 25, zc = - 22\<rparr>] =
     [Some OCCUPIED, Some EMPTY] \<and>
   map (\<lambda>p. cellState (gridManager (importCityData (exportCityData 4 (processChanges
        [(ids ''1'', change CREATE ''d'', commitAt 1),
         (ids ''2'', change CREATE ''e'', commitAt 2),
         (ids ''3'', change DELETE ''d'', commitAt 3)] freshEngine))
       (processChanges
        [(ids ''1'', change CREATE ''d'', commitAt 1),
         (ids ''2'', change CREATE ''e'', commitAt 2),
         (ids ''3'', change DELETE ''d'', commitAt 3)] freshEngine))) p)
      [\<lparr>xc = - 25, zc = - 23\<rparr>, \<lparr>xc = - 25, zc = - 22\<rparr>] =
     [Some OCCUPIED, Some OCCUPIED] \<and>
   map (\<lambda>b. (filePath b, isActive b, position b))
     (getAllBuildings (fileTracker (importCityData (exportCityData 4 (processChanges
        [(ids ''1'', change CREATE ''d'', commitAt 1),
         (ids ''2'', change CREATE ''e'', commitAt 2),
         (ids ''3'', change DELETE ''d'', commitAt 3)] freshEngine)) freshEngine))) =
     [(''d'', False, \<lparr>xc = - 25, zc = - 23\<rparr>), (''e'', True, \<lparr>xc = - 25, zc = - 22\<rparr>)]"
  by (simp add: engine_eval alloc_eval query_eval import_eval)

section \<open>Creation\<close>

lemma createBuilding_recorded:
  "getBuilding ft path \<noteq> None \<Longrightarrow>
     createBuilding ft path pos layer bid lid = (ft, Inl (AlreadyExists path))"
  by (simp add: createBuilding_def getBuilding_def)

lemma createBuilding_new:
  "getBuilding ft path = None \<Longrightarrow>
     createBuilding ft path pos layer bid lid =
       (ft\<lparr>buildings := AList.update path
               \<lparr>id_b = bid, filePath = path, position = pos, layers = [withId lid layer],
                fileType = determineFileType path, isActive = True,
                createdAt = timestamp layer, lastModified = timestamp layer\<rparr> (buildings ft),
            buildingIds := AList.update bid path (buildingIds ft)\<rparr>,
        Inr \<lparr>id_b = bid, filePath = path, position = pos, layers = [withId lid layer],
             fileType = determineFileType path, isActive = True,
             createdAt = timestamp layer, lastModified = timestamp layer\<rparr>)"
  by (simp add: createBuilding_def getBuilding_def Let_def)

lemma handleFileCreation_recorded:
  "getBuilding (fileTracker eng) path \<noteq> None \<Longrightarrow>
     handleFileCreation rnd path layer eng =
       eng\<lparr>trace := trace eng @ [ConsoleWarn (''Building already exists for file: '' @ path)]\<rparr>"
  by (auto simp: handleFileCreation_def)

text \<open>
  Claim C4, as the code has it. \<^verbatim>\<open>createBuilding\<close> fails exactly when a building is
  recorded for the path, active or retired, and then changes nothing; otherwise it
  records a new active building with the given id and one layer. A \<^verbatim>\<open>CREATE\<close> event
  for a recorded path leaves the ledger and the grid as they are.
\<close>

theorem createBuilding_fails_iff_recorded:
  "(isl (snd (createBuilding ft path pos layer bid lid)) \<longleftrightarrow> getBuilding ft path \<noteq> None) \<and>
   (getBuilding ft path \<noteq> None \<longrightarrow> fst (createBuilding ft path pos layer bid lid) = ft) \<and>
   (getBuilding ft path = None \<longrightarrow>
      getBuilding (fst (createBuilding ft path pos layer bid lid)) path =
        Some \<lparr>id_b = bid, filePath = path, position = pos, layers = [withId lid layer],
              fileType = determineFileType path, isActive = True,
              createdAt = timestamp layer, lastModified = timestamp layer\<rparr> \<and>
      hasActiveBuilding (fst (createBuilding ft path pos layer bid lid)) path) \<and>
   (getBuilding (fileTracker eng) path \<noteq> None \<longrightarrow>
      fileTracker (handleFileCreation rnd path layer eng) = fileTracker eng \<and>
      gridManager (handleFileCreation rnd path layer eng) = gridManager eng)"
proof (cases "getBuilding ft path = None")
  case True
  have e: "getBuilding (fileTracker eng) path \<noteq> None \<longrightarrow>
      fileTracker (handleFileCreation rnd path layer eng) = fileTracker eng \<and>
      gridManager (handleFileCreation rnd path layer eng) = gridManager eng"
    by (simp add: handleFileCreation_recorded)
  from True e show ?thesis
    by (simp add: createBuilding_new hasActiveBuilding_def getBuilding_def update_conv)
next
  case False
  have e: "getBuilding (fileTracker eng) path \<noteq> None \<longrightarrow>
      fileTracker (handleFileCreation rnd path layer eng) = fileTracker eng \<and>
      gridManager (handleFileCreation rnd path layer eng) = gridManager eng"
    by (simp add: handleFileCreation_recorded)
  from False obtain b where b: "getBuilding ft path = Some b" by blast
  from b e show ?thesis
    by (simp add: createBuilding_recorded)
qed

text \<open>
  Claim C4 as stated (creation fails only when an active building holds the key)
  fails after \<^verbatim>\<open>CREATE d, DELETE d\<close>: no active building is recorded for \<^verbatim>\<open>d\<close>, and
  \<^verbatim>\<open>createBuilding\<close> refuses the key.
\<close>

theorem createBuilding_retired_key_counterexample:
  "\<not> hasActiveBuilding (fileTracker (processChanges
        [(ids ''1'', change CREATE ''d'', commitAt 1),
         (ids ''2'', change DELETE ''d'', commitAt 2)] freshEngine)) ''d'' \<and>
   snd (createBuilding (fileTracker (processChanges
        [(ids ''1'', change CREATE ''d'', commitAt 1),
         (ids ''2'', change DELETE ''d'', commitAt 2)] freshEngine))
      ''d'' \<lparr>xc = - 25, zc = - 23\<rparr> (layerOf (change CREATE ''d'') (commitAt 3))
      ''building_b3'' ''layer_3'') = Inl (AlreadyExists ''d'')"
  by (simp add: engine_eval alloc_eval query_eval)

theorem createBuilding_fails_iff_recorded_witness:
  "getBuilding newFileTracker ''d'' = None \<and>
   \<not> isl (snd (createBuilding newFileTracker ''d'' \<lparr>xc = - 25, zc = - 23\<rparr>
      (layerOf (change CREATE ''d'') (commitAt 1)) ''building_b1'' ''layer_1'')) \<and>
   hasActiveBuilding (fst (createBuilding newFileTracker ''d'' \<lparr>xc = - 25, zc = - 23\<rparr>
      (layerOf (change CREATE ''d'') (commitAt 1)) ''building_b1'' ''layer_1'')) ''d'' \<and>
   getBuilding (fileTracker (processFileChange (ids ''1'') (change CREATE ''d'') (commitAt 1)
      freshEngine)) ''d'' \<noteq> None \<and>
   fst (createBuilding (fileTracker (processFileChange (ids ''1'') (change CREATE ''d'')
      (commitAt 1) freshEngine)) ''d'' \<lparr>xc = - 25, zc = - 23\<rparr>
      (layerOf (change CREATE ''d'') (commitAt 1)) ''building_b1'' ''layer_1'') =
     fileTracker (processFileChange (ids ''1'') (change CREATE ''d'') (commitAt 1) freshEngine) \<and>
   fileTracker (handleFileCreation (ids ''2'') ''d'' (layerOf (change CREATE ''d'') (commitAt 1))
      (processFileChange (ids ''1'') (change CREATE ''d'') (commitAt 1) freshEngine)) =
   fileTracker (processFileChange (ids ''1'') (change CREATE ''d'') (commitAt 1) freshEngine)"
proof -
  let ?l = "layerOf (change CREATE ''d'') (commitAt 1)"
  let ?p = "\<lparr>xc = - 25, zc = - 23\<rparr>"
  let ?e = "processFileChange (ids ''1'') (change CREATE ''d'') (commitAt 1) freshEngine"
  have n: "getBuilding newFileTracker ''d'' = None"
    by (simp add: getBuilding_def newFileTracker_def)
  have r: "getBuilding (fileTracker ?e) ''d'' \<noteq> None"
    by (simp add: engine_eval alloc_eval)
  note t = createBuilding_fails_iff_recorded[of newFileTracker "''d''" ?p ?l "''building_b1''"
      "''layer_1''" ?e "ids ''2''"]
  from t n have 1: "\<not> isl (snd (createBuilding newFileTracker ''d'' ?p ?l ''building_b1'' ''layer_1''))"
    by blast
  from t n have 2: "hasActiveBuilding (fst (createBuilding newFileTracker ''d'' ?p ?l
      ''building_b1'' ''layer_1'')) ''d''"
    by blast
  from t r have 3: "fileTracker (handleFileCreation (ids ''2'') ''d'' ?l ?e) = fileTracker ?e"
    by blast
  note t2 = createBuilding_fails_iff_recorded[of "fileTracker ?e" "''d''" ?p ?l "''building_b1''"
      "''layer_1''" ?e "ids ''2''"]
  from t2 r have 4: "fst (createBuilding (fileTracker ?e) ''d'' ?p ?l ''building_b1'' ''layer_1'') =
      fileTracker ?e"
    by blast
  from n 1 2 r 4 3 show ?thesis by (intro conjI)
qed

section \<open>Modification\<close>

lemma allocatePosition_occupied:
  assumes "allocatePosition gm path bid = (gm', Inr p)"
  shows "cellState gm' p = Some OCCUPIED"
  using assms
proof (cases rule: allocatePosition_cases)
  case direct
  from findAvailablePosition_valid[OF direct(1)] obtain cell where
    "grid gm (xc p, zc p) = Some cell" by (blast dest: isValidPosition_cell)
  then show ?thesis
    by (simp add: cellState_def getCell_def getGridKey_def direct(2) grid_occupy)
next
  case expanded
  from findAvailablePosition_valid[OF expanded(2)] obtain cell where
    "grid (expandGrid gm) (xc p, zc p) = Some cell" by (blast dest: isValidPosition_cell)
  then show ?thesis
    by (simp add: cellState_def getCell_def getGridKey_def expanded(3) grid_occupy)
qed

lemma handleFileCreation_new:
  assumes "getBuilding (fileTracker eng) path = None"
    and "allocatePosition (gridManager eng) path (rnd_gridId rnd) = (gm, Inr pos)"
  shows "gridManager (handleFileCreation rnd path layer eng) = gm"
    and "fileTracker (handleFileCreation rnd path layer eng) =
           fst (createBuilding (fileTracker eng) path pos layer (rnd_buildingId rnd) (rnd_layerId rnd))"
  using assms
  by (simp_all add: handleFileCreation_def createBuilding_new emitUpdateEvent_def)

lemma handleFileModification_absent:
  "getBuilding (fileTracker eng) path = None \<Longrightarrow>
     handleFileModification rnd path layer eng = handleFileCreation rnd path layer eng"
  by (simp add: handleFileModification_def)

lemma handleFileModification_active:
  assumes "getBuilding (fileTracker eng) path = Some b" and "isActive b"
  shows "gridManager (handleFileModification rnd path layer eng) = gridManager eng"
    and "fileTracker (handleFileModification rnd path layer eng) =
           (fileTracker eng)\<lparr>buildings :=
              AList.update path
                (b\<lparr>layers := layers b @ [withId (rnd_layerId rnd) layer],
                   lastModified := timestamp layer\<rparr>) (buildings (fileTracker eng))\<rparr>"
  using assms
  by (simp_all add: handleFileModification_def addLayer_def getBuilding_def emitUpdateEvent_def
      Let_def)

lemma handleFileModification_retired:
  assumes "getBuilding (fileTracker eng) path = Some b" and "\<not> isActive b"
  shows "handleFileModification rnd path layer eng = eng"
  using assms
  by (simp add: handleFileModification_def addLayer_def getBuilding_def)

lemma simpleHash_nonneg: "0 \<le> simpleHash path"
  by (simp add: simpleHash_def)

lemma getHashedPosition_fresh:
  "\<exists>p. getHashedPosition (newGridManager r) path = Some p \<and>
       - 25 \<le> xc p \<and> xc p \<le> 24 \<and> - 25 \<le> zc p \<and> zc p \<le> 24"
proof -
  let ?h = "simpleHash path"
  have h: "0 \<le> ?h" by (rule simpleHash_nonneg)
  then have q: "0 \<le> ?h div 50" by simp
  have x: "jsRem ?h 50 = Some (?h mod 50)"
    using h by (simp add: jsRem_def sgn_if)
  have z: "jsRem (?h div 50) 50 = Some (?h div 50 mod 50)"
    using q by (simp add: jsRem_def sgn_if)
  have "0 \<le> ?h mod 50" "?h mod 50 < 50" "0 \<le> ?h div 50 mod 50" "?h div 50 mod 50 < 50"
    by simp_all
  then have "?h mod 50 \<le> 49" "?h div 50 mod 50 \<le> 49" by linarith+
  then show ?thesis
    by (simp add: getHashedPosition_def bounds_newGridManager x z Let_def)
qed

lemma allocatePosition_fresh_succeeds:
  "\<exists>pos. allocatePosition (newGridManager 4) path bid =
          (occupy (newGridManager 4) pos bid, Inr pos)"
proof -
  from getHashedPosition_fresh[of 4 path] obtain p where
    p: "getHashedPosition (newGridManager 4) path = Some p"
    and b: "- 25 \<le> xc p" "xc p \<le> 24" "- 25 \<le> zc p" "zc p \<le> 24"
    by blast
  let ?q = "\<lparr>xc = - 25, zc = - 23\<rparr>"
  have v: "isValidPosition (newGridManager 4) ?q"
    by (simp add: valid_fresh isRoad_dvd)
  have "chebyshev p ?q \<le> 50" using b by (simp add: chebyshev_def)
  then have "\<not> max 0 (max (width (bounds (newGridManager 4))) (height (bounds (newGridManager 4))))
      < chebyshev p ?q"
    by (simp add: bounds_newGridManager)
  with v have "findAvailablePosition (newGridManager 4) (Some p) \<noteq> None"
    unfolding findAvailablePosition_None by blast
  then obtain c where "findAvailablePosition (newGridManager 4) (Some p) = Some c" by blast
  then have "allocatePosition (newGridManager 4) path bid = (occupy (newGridManager 4) c bid, Inr c)"
    by (simp add: allocatePosition_eq p)
  then show ?thesis by blast
qed


lemma create_then_modify_fresh:
  "\<exists>b. getBuilding (fileTracker (handleFileModification rnd path layer
             (handleFileCreation rnd1 path layer1 freshEngine))) path = Some b \<and>
       isActive b \<and> length (layers b) = 2 \<and>
       cellState (gridManager (handleFileModification rnd path layer
             (handleFileCreation rnd1 path layer1 freshEngine))) (position b) = Some OCCUPIED"
proof -
  let ?e1 = "handleFileCreation rnd1 path layer1 freshEngine"
  from allocatePosition_fresh_succeeds[of path "rnd_gridId rnd1"] obtain pos where
    a: "allocatePosition (gridManager freshEngine) path (rnd_gridId rnd1) =
          (occupy (newGridManager 4) pos (rnd_gridId rnd1), Inr pos)"
    by (auto simp: freshEngine_def newCityGeneratorCore_def roadInterval_defaultConfig)
  have n: "getBuilding (fileTracker freshEngine) path = None"
    by (simp add: freshEngine_def newCityGeneratorCore_def newFileTracker_def getBuilding_def)
  let ?b1 = "\<lparr>id_b = rnd_buildingId rnd1, filePath = path, position = pos,
              layers = [withId (rnd_layerId rnd1) layer1],
              fileType = determineFileType path, isActive = True,
              createdAt = timestamp layer1, lastModified = timestamp layer1\<rparr>"
  from handleFileCreation_new[OF n a, of layer1]
  have g1: "gridManager ?e1 = occupy (newGridManager 4) pos (rnd_gridId rnd1)"
    and f1: "fileTracker ?e1 =
       fst (createBuilding (fileTracker freshEngine) path pos layer1
              (rnd_buildingId rnd1) (rnd_layerId rnd1))"
    by simp_all
  from n f1 have b1: "getBuilding (fileTracker ?e1) path = Some ?b1"
    by (simp add: createBuilding_new getBuilding_def update_conv)
  have act: "isActive ?b1" by simp
  have g2: "gridManager (handleFileModification rnd path layer ?e1) =
      occupy (newGridManager 4) pos (rnd_gridId rnd1)"
    using handleFileModification_active(1)[OF b1 act] g1 by simp
  have b2: "getBuilding (fileTracker (handleFileModification rnd path layer ?e1)) path =
        Some (?b1\<lparr>layers := layers ?b1 @ [withId (rnd_layerId rnd) layer],
                  lastModified := timestamp layer\<rparr>)"
    unfolding handleFileModification_active(2)[OF b1 act]
    by (simp add: getBuilding_def update_conv)
  have c: "cellState (occupy (newGridManager 4) pos (rnd_gridId rnd1)) pos = Some OCCUPIED"
    using allocatePosition_occupied[OF a] .
  from b2 g2 c show ?thesis by simp
qed

text \<open>
  Claim C6, as the code has it. A \<^verbatim>\<open>MODIFY\<close> event for a path with no recorded building
  is handled exactly as a \<^verbatim>\<open>CREATE\<close> event. For a path with an active building it
  appends one layer to that building, sets its last-modified time and leaves the grid
  alone. For a path whose building is retired it changes nothing. A \<^verbatim>\<open>CREATE\<close> whose
  allocation succeeds, followed by a \<^verbatim>\<open>MODIFY\<close> of the same path, leaves an active
  building with exactly two layers at the allocated position, and the grid is the one
  that single allocation returned, with that cell \<open>OCCUPIED\<close>. On a new engine with
  the default configuration the allocation succeeds for every path.
\<close>

theorem modification_cases:
  "(getBuilding (fileTracker eng) path = None \<longrightarrow>
      handleFileModification rnd path layer eng = handleFileCreation rnd path layer eng) \<and>
   (getBuilding (fileTracker eng) path = Some b \<and> isActive b \<longrightarrow>
      gridManager (handleFileModification rnd path layer eng) = gridManager eng \<and>
      fileTracker (handleFileModification rnd path layer eng) =
        (fileTracker eng)\<lparr>buildings :=
           AList.update path
             (b\<lparr>layers := layers b @ [withId (rnd_layerId rnd) layer],
                lastModified := timestamp layer\<rparr>) (buildings (fileTracker eng))\<rparr>) \<and>
   (getBuilding (fileTracker eng) path = Some b \<and> \<not> isActive b \<longrightarrow>
      handleFileModification rnd path layer eng = eng) \<and>
   (getBuilding (fileTracker eng) path = None \<and>
    allocatePosition (gridManager eng) path (rnd_gridId rnd1) = (gm, Inr pos) \<longrightarrow>
      gridManager (handleFileModification rnd path layer
                     (handleFileCreation rnd1 path layer1 eng)) = gm \<and>
      cellState gm pos = Some OCCUPIED \<and>
      getBuilding (fileTracker (handleFileModification rnd path layer
                     (handleFileCreation rnd1 path layer1 eng))) path =
        Some \<lparr>id_b = rnd_buildingId rnd1, filePath = path, position = pos,
              layers = [withId (rnd_layerId rnd1) layer1, withId (rnd_layerId rnd) layer],
              fileType = determineFileType path, isActive = True,
              createdAt = timestamp layer1, lastModified = timestamp layer\<rparr>) \<and>
   (\<exists>b. getBuilding (fileTracker (handleFileModification rnd path layer
             (handleFileCreation rnd1 path layer1 freshEngine))) path = Some b \<and>
       isActive b \<and> length (layers b) = 2 \<and>
       cellState (gridManager (handleFileModification rnd path layer
             (handleFileCreation rnd1 path layer1 freshEngine))) (position b) = Some OCCUPIED)"
proof (intro conjI impI)
  assume "getBuilding (fileTracker eng) path = None"
  then show "handleFileModification rnd path layer eng = handleFileCreation rnd path layer eng"
    by (rule handleFileModification_absent)
next
  assume a: "getBuilding (fileTracker eng) path = Some b \<and> isActive b"
  then show "gridManager (handleFileModification rnd path layer eng) = gridManager eng"
    by (simp add: handleFileModification_active)
  from a show "fileTracker (handleFileModification rnd path layer eng) =
        (fileTracker eng)\<lparr>buildings :=
           AList.update path
             (b\<lparr>layers := layers b @ [withId (rnd_layerId rnd) layer],
                lastModified := timestamp layer\<rparr>) (buildings (fileTracker eng))\<rparr>"
    by (simp add: handleFileModification_active)
next
  assume "getBuilding (fileTracker eng) path = Some b \<and> \<not> isActive b"
  then show "handleFileModification rnd path layer eng = eng"
    by (simp add: handleFileModification_retired)
next
  assume a: "getBuilding (fileTracker eng) path = None \<and>
    allocatePosition (gridManager eng) path (rnd_gridId rnd1) = (gm, Inr pos)"
  let ?e1 = "handleFileCreation rnd1 path layer1 eng"
  let ?b1 = "\<lparr>id_b = rnd_buildingId rnd1, filePath = path, position = pos,
              layers = [withId (rnd_layerId rnd1) layer1],
              fileType = determineFileType path, isActive = True,
              createdAt = timestamp layer1, lastModified = timestamp layer1\<rparr>"
  from a have g1: "gridManager ?e1 = gm"
    and f1: "fileTracker ?e1 =
       fst (createBuilding (fileTracker eng) path pos layer1 (rnd_buildingId rnd1) (rnd_layerId rnd1))"
    by (simp_all add: handleFileCreation_new)
  from a f1 have b1: "getBuilding (fileTracker ?e1) path = Some ?b1"
    by (simp add: createBuilding_new getBuilding_def update_conv)
  have act: "isActive ?b1" by simp
  show "gridManager (handleFileModification rnd path layer ?e1) = gm"
    using handleFileModification_active(1)[OF b1 act] g1 by simp
  from a show "cellState gm pos = Some OCCUPIED"
    by (blast intro: allocatePosition_occupied)
  show "getBuilding (fileTracker (handleFileModification rnd path layer ?e1)) path =
        Some \<lparr>id_b = rnd_buildingId rnd1, filePath = path, position = pos,
              layers = [withId (rnd_layerId rnd1) layer1, withId (rnd_layerId rnd) layer],
              fileType = determineFileType path, isActive = True,
              createdAt = timestamp layer1, lastModified = timestamp layer\<rparr>"
    unfolding handleFileModification_active(2)[OF b1 act]
    by (simp add: getBuilding_def update_conv)
next
  show "\<exists>b. getBuilding (fileTracker (handleFileModification rnd path layer
             (handleFileCreation rnd1 path layer1 freshEngine))) path = Some b \<and>
       isActive b \<and> length (layers b) = 2 \<and>
       cellState (gridManager (handleFileModification rnd path layer
             (handleFileCreation rnd1 path layer1 freshEngine))) (position b) = Some OCCUPIED"
    by (rule create_then_modify_fresh)
qed

text \<open>
  Claim C6 as stated (with no active building for the key, \<^verbatim>\<open>MODIFY\<close> falls back to
  the \<^verbatim>\<open>CREATE\<close> path) fails after \<^verbatim>\<open>CREATE d, DELETE d\<close>: no active building is
  recorded for \<^verbatim>\<open>d\<close>, the \<^verbatim>\<open>MODIFY\<close> leaves the engine exactly as it was, and that is
  not what the \<^verbatim>\<open>CREATE\<close> path does there.
\<close>

theorem modification_retired_key_counterexample:
  "\<not> hasActiveBuilding (fileTracker (processChanges
        [(ids ''1'', change CREATE ''d'', commitAt 1),
         (ids ''2'', change DELETE ''d'', commitAt 2)] freshEngine)) ''d'' \<and>
   handleFileModification (ids ''3'') ''d'' (layerOf (change MODIFY ''d'') (commitAt 3))
     (processChanges
        [(ids ''1'', change CREATE ''d'', commitAt 1),
         (ids ''2'', change DELETE ''d'', commitAt 2)] freshEngine) =
   processChanges
        [(ids ''1'', change CREATE ''d'', commitAt 1),
         (ids ''2'', change DELETE ''d'', commitAt 2)] freshEngine \<and>
   handleFileCreation (ids ''3'') ''d'' (layerOf (change MODIFY ''d'') (commitAt 3))
     (processChanges
        [(ids ''1'', change CREATE ''d'', commitAt 1),
         (ids ''2'', change DELETE ''d'', commitAt 2)] freshEngine) \<noteq>
   handleFileModification (ids ''3'') ''d'' (layerOf (change MODIFY ''d'') (commitAt 3))
     (processChanges
        [(ids ''1'', change CREATE ''d'', commitAt 1),
         (ids ''2'', change DELETE ''d'', commitAt 2)] freshEngine)"
  by (simp add: engine_eval alloc_eval query_eval)


theorem modification_cases_witness:
  "handleFileModification (ids ''1'') ''d'' (layerOf (change MODIFY ''d'') (commitAt 1)) freshEngine =
     handleFileCreation (ids ''1'') ''d'' (layerOf (change MODIFY ''d'') (commitAt 1)) freshEngine \<and>
   hasActiveBuilding (fileTracker (processChanges
        [(ids ''1'', change CREATE ''d'', commitAt 1)] freshEngine)) ''d'' \<and>
   gridManager (handleFileModification (ids ''2'') ''d'' (layerOf (change MODIFY ''d'') (commitAt 2))
     (processChanges [(ids ''1'', change CREATE ''d'', commitAt 1)] freshEngine)) =
     gridManager (processChanges [(ids ''1'', change CREATE ''d'', commitAt 1)] freshEngine) \<and>
   handleFileModification (ids ''3'') ''d'' (layerOf (change MODIFY ''d'') (commitAt 3))
     (processChanges
        [(ids ''1'', change CREATE ''d'', commitAt 1),
         (ids ''2'', change DELETE ''d'', commitAt 2)] freshEngine) =
     processChanges
        [(ids ''1'', change CREATE ''d'', commitAt 1),
         (ids ''2'', change DELETE ''d'', commitAt 2)] freshEngine \<and>
   map_option (\<lambda>b. (isActive b, length (layers b), position b))
     (getBuilding (fileTracker
        (handleFileModification (ids ''2'') ''d'' (layerOf (change MODIFY ''d'') (commitAt 2))
           (handleFileCreation (ids ''1'') ''d'' (layerOf (change CREATE ''d'') (commitAt 1))
              freshEngine))) ''d'') =
     Some (True, 2, \<lparr>xc = - 25, zc = - 23\<rparr>) \<and>
   cellState (gridManager
        (handleFileModification (ids ''2'') ''d'' (layerOf (change MODIFY ''d'') (commitAt 2))
           (handleFileCreation (ids ''1'') ''d'' (layerOf (change CREATE ''d'') (commitAt 1))
              freshEngine))) \<lparr>xc = - 25, zc = - 23\<rparr> = Some OCCUPIED"
proof -
  let ?p = "\<lparr>xc = - 25, zc = - 23\<rparr>"
  let ?l1 = "layerOf (change CREATE ''d'') (commitAt 1)"
  let ?m1 = "layerOf (change MODIFY ''d'') (commitAt 1)"
  let ?m2 = "layerOf (change MODIFY ''d'') (commitAt 2)"
  let ?m3 = "layerOf (change MODIFY ''d'') (commitAt 3)"
  let ?e1 = "processChanges [(ids ''1'', change CREATE ''d'', commitAt 1)] freshEngine"
  let ?e2 = "processChanges [(ids ''1'', change CREATE ''d'', commitAt 1),
         (ids ''2'', change DELETE ''d'', commitAt 2)] freshEngine"
  let ?b1 = "\<lparr>id_b = ''building_b1'', filePath = ''d'', position = ?p,
      layers = [withId ''layer_1'' ?l1], fileType = OTHER, isActive = True,
      createdAt = 1, lastModified = 1\<rparr>"
  let ?b2 = "\<lparr>id_b = ''building_b1'', filePath = ''d'', position = ?p,
      layers = [withId ''layer_1'' ?l1,
                (withId ''layer_2'' (layerOf (change DELETE ''d'') (commitAt 2)))\<lparr>changeType := DELETE\<rparr>],
      fileType = OTHER, isActive = False, createdAt = 1, lastModified = 2\<rparr>"
  have h1: "getBuilding (fileTracker freshEngine) ''d'' = None"
    by (simp add: engine_eval)
  have h2: "getBuilding (fileTracker ?e1) ''d'' = Some ?b1 \<and> isActive ?b1"
    by (simp add: engine_eval alloc_eval)
  have h3: "getBuilding (fileTracker ?e2) ''d'' = Some ?b2 \<and> \<not> isActive ?b2"
    by (simp add: engine_eval alloc_eval)
  have h4: "getBuilding (fileTracker freshEngine) ''d'' = None \<and>
     allocatePosition (gridManager freshEngine) ''d'' (rnd_gridId (ids ''1'')) =
       (occupy (newGridManager 4) ?p ''building_g1'', Inr ?p)"
    by (simp add: engine_eval alloc_eval)
  have w1: "handleFileModification (ids ''1'') ''d'' ?m1 freshEngine =
     handleFileCreation (ids ''1'') ''d'' ?m1 freshEngine"
    using modification_cases[where eng = freshEngine and path = "''d''",
        THEN conjunct1, THEN mp, OF h1] .
  have a: "hasActiveBuilding (fileTracker ?e1) ''d''"
    using h2 by (simp add: hasActiveBuilding_def)
  have w2: "gridManager (handleFileModification (ids ''2'') ''d'' ?m2 ?e1) = gridManager ?e1"
    using modification_cases[where eng = ?e1 and path = "''d''" and b = ?b1,
        THEN conjunct2, THEN conjunct1, THEN mp, OF h2, THEN conjunct1] .
  have w3: "handleFileModification (ids ''3'') ''d'' ?m3 ?e2 = ?e2"
    using modification_cases[where eng = ?e2 and path = "''d''" and b = ?b2,
        THEN conjunct2, THEN conjunct2, THEN conjunct1, THEN mp, OF h3] .
  note s = modification_cases[where eng = freshEngine and path = "''d''" and ?rnd1.0 = "ids ''1''"
        and rnd = "ids ''2''" and layer = ?m2 and ?layer1.0 = ?l1,
        THEN conjunct2, THEN conjunct2, THEN conjunct2, THEN conjunct1, THEN mp, OF h4]
  from s have w4: "map_option (\<lambda>b. (isActive b, length (layers b), position b))
     (getBuilding (fileTracker (handleFileModification (ids ''2'') ''d'' ?m2
           (handleFileCreation (ids ''1'') ''d'' ?l1 freshEngine))) ''d'') = Some (True, 2, ?p)"
    by simp
  from s have w5: "cellState (gridManager (handleFileModification (ids ''2'') ''d'' ?m2
           (handleFileCreation (ids ''1'') ''d'' ?l1 freshEngine))) ?p = Some OCCUPIED"
    by simp
  from w1 a w2 w3 w4 w5 show ?thesis by (intro conjI)
qed

section \<open>Geometry and the clock\<close>





section \<open>The road pattern is permanent\<close>

text \<open>
  The two parts of claim C2 that concern roads hold on every run: after any list of
  changes from a new engine, a cell is \<open>ROAD\<close> exactly when the road test holds at its
  key, so no \<open>OCCUPIED\<close> or \<open>RESERVED\<close> cell lies on a road line, and a \<open>ROAD\<close> cell
  is still a \<open>ROAD\<close> cell after every change.
\<close>

lemma roads_fixedD:
  "roads_fixed gm \<Longrightarrow> grid gm (x, z) = Some cell \<Longrightarrow>
     state cell = ROAD \<longleftrightarrow> isRoad (roadInterval gm) x z"
  by (simp add: roads_fixed_def)

lemma roads_fixed_new: "roads_fixed (newGridManager r)"
  by (simp add: roads_fixed_def grid_newGridManager roadInterval_newGridManager freshCell_def
      split: if_splits)

lemma roads_fixed_expandGrid:
  assumes "roads_fixed gm" shows "roads_fixed (expandGrid gm)"
  unfolding roads_fixed_def
proof (intro allI impI)
  fix x z cell assume c: "grid (expandGrid gm) (x, z) = Some cell"
  show "state cell = ROAD \<longleftrightarrow> isRoad (roadInterval (expandGrid gm)) x z"
  proof (cases "grid gm (x, z)")
    case None
    with c have "cell = freshCell (roadInterval gm) x z"
      by (simp add: grid_expandGrid split: if_splits)
    then show ?thesis by (simp add: roadInterval_expandGrid freshCell_def)
  next
    case (Some old)
    with c have "cell = old" by (simp add: grid_expandGrid)
    with Some assms show ?thesis by (simp add: roadInterval_expandGrid roads_fixedD)
  qed
qed

lemma roads_fixed_occupy:
  assumes r: "roads_fixed gm" and v: "isValidPosition gm p"
  shows "roads_fixed (occupy gm p bid)"
  unfolding roads_fixed_def
proof (intro allI impI)
  fix x z cell assume c: "grid (occupy gm p bid) (x, z) = Some cell"
  from v obtain e where e: "grid gm (xc p, zc p) = Some e" "state e = EMPTY"
    by (blast dest: isValidPosition_cell)
  show "state cell = ROAD \<longleftrightarrow> isRoad (roadInterval (occupy gm p bid)) x z"
  proof (cases "(x, z) = (xc p, zc p)")
    case True
    with c e have "state cell = OCCUPIED" by (auto simp: grid_occupy)
    moreover from roads_fixedD[OF r e(1)] e(2) True have "\<not> isRoad (roadInterval gm) x z" by simp
    ultimately show ?thesis by (simp add: roadInterval_occupy)
  next
    case False
    with c have "grid gm (x, z) = Some cell" by (auto simp: grid_occupy split: if_splits)
    with r show ?thesis by (simp add: roadInterval_occupy roads_fixedD)
  qed
qed

lemma roads_fixed_freePosition:
  assumes r: "roads_fixed gm"
  shows "roads_fixed (fst (freePosition gm p))"
  unfolding roads_fixed_def
proof (intro allI impI)
  fix x z cell assume c: "grid (fst (freePosition gm p)) (x, z) = Some cell"
  then obtain old where o: "grid gm (x, z) = Some old"
    and s: "state cell = state old \<or> (state old = OCCUPIED \<and> state cell = EMPTY)"
    by (cases "grid gm (x, z)") (auto simp: grid_freePosition split: if_splits)
  from roads_fixedD[OF r o] s
  show "state cell = ROAD \<longleftrightarrow> isRoad (roadInterval (fst (freePosition gm p))) x z"
    by (auto simp: roadInterval_freePosition)
qed

lemma roadInterval_allocatePosition:
  "roadInterval (fst (allocatePosition gm path bid)) = roadInterval gm"
  by (simp add: allocatePosition_eq roadInterval_occupy roadInterval_expandGrid
      split: option.splits)

lemma roads_fixed_allocatePosition:
  assumes r: "roads_fixed gm"
  shows "roads_fixed (fst (allocatePosition gm path bid))"
proof (cases "findAvailablePosition gm (getHashedPosition gm path)")
  case (Some c)
  then show ?thesis
    using roads_fixed_occupy[OF r findAvailablePosition_valid[OF Some]]
    by (simp add: allocatePosition_eq)
next
  case None
  note e = roads_fixed_expandGrid[OF r]
  show ?thesis
  proof (cases "findAvailablePosition (expandGrid gm) (getHashedPosition gm path)")
    case n2: None
    with None e show ?thesis by (simp add: allocatePosition_eq)
  next
    case (Some c)
    with None show ?thesis
      using roads_fixed_occupy[OF e findAvailablePosition_valid[OF Some]]
      by (simp add: allocatePosition_eq)
  qed
qed

lemma cell_kept_allocatePosition:
  "grid gm k \<noteq> None \<Longrightarrow> grid (fst (allocatePosition gm path bid)) k \<noteq> None"
  by (auto simp: allocatePosition_eq grid_occupy grid_expandGrid split: option.splits)

lemma cell_kept_freePosition:
  "grid gm k \<noteq> None \<Longrightarrow> grid (fst (freePosition gm p)) k \<noteq> None"
  by (auto simp: grid_freePosition)



lemma grid_step_refl: "grid_step gm gm"
  by (simp add: grid_step_def)

lemma grid_step_trans: "grid_step a b \<Longrightarrow> grid_step b c \<Longrightarrow> grid_step a c"
  by (simp add: grid_step_def)

lemma grid_step_allocatePosition: "grid_step gm (fst (allocatePosition gm path bid))"
  by (simp add: grid_step_def roadInterval_allocatePosition roads_fixed_allocatePosition
      cell_kept_allocatePosition)

lemma grid_step_freePosition: "grid_step gm (fst (freePosition gm p))"
  by (simp add: grid_step_def roadInterval_freePosition roads_fixed_freePosition
      cell_kept_freePosition)

lemma grid_step_handleFileCreation:
  "grid_step (gridManager eng) (gridManager (handleFileCreation rnd path layer eng))"
proof (cases "getBuilding (fileTracker eng) path")
  case (Some b)
  then show ?thesis by (simp add: handleFileCreation_def grid_step_refl)
next
  case None
  obtain gm res where a: "allocatePosition (gridManager eng) path (rnd_gridId rnd) = (gm, res)"
    by (cases "allocatePosition (gridManager eng) path (rnd_gridId rnd)")
  have "gridManager (handleFileCreation rnd path layer eng) = gm"
    using None a
    by (cases res) (simp_all add: handleFileCreation_def createBuilding_new emitUpdateEvent_def)
  with grid_step_allocatePosition[of "gridManager eng" path "rnd_gridId rnd"] a
  show ?thesis by simp
qed

lemma grid_step_handleFileModification:
  "grid_step (gridManager eng) (gridManager (handleFileModification rnd path layer eng))"
proof (cases "getBuilding (fileTracker eng) path")
  case None
  then show ?thesis
    by (simp add: handleFileModification_absent grid_step_handleFileCreation)
next
  case (Some b)
  then show ?thesis
    by (cases "isActive b")
       (simp_all add: handleFileModification_active handleFileModification_retired grid_step_refl)
qed

lemma handleFileDeletion_absent:
  "getBuilding (fileTracker eng) path = None \<Longrightarrow>
     handleFileDeletion rnd path layer eng =
       eng\<lparr>trace := trace eng @ [ConsoleWarn (''Cannot delete non-existent file: '' @ path)]\<rparr>"
  by (simp add: handleFileDeletion_def)

lemma handleFileDeletion_recorded:
  assumes "getBuilding (fileTracker eng) path = Some b"
  shows "fileTracker (handleFileDeletion rnd path layer eng) =
           (fileTracker eng)\<lparr>buildings :=
              AList.update path
                (b\<lparr>layers := layers b @ [(withId (rnd_layerId rnd) layer)\<lparr>changeType := DELETE\<rparr>],
                   isActive := False, lastModified := timestamp layer\<rparr>)
                (buildings (fileTracker eng))\<rparr>"
    and "gridManager (handleFileDeletion rnd path layer eng) =
           fst (freePosition (gridManager eng) (position b))"
  using assms
  by (simp_all add: handleFileDeletion_def deleteBuilding_def getBuilding_def emitUpdateEvent_def
      Let_def)

lemma grid_step_handleFileDeletion:
  "grid_step (gridManager eng) (gridManager (handleFileDeletion rnd path layer eng))"
proof (cases "getBuilding (fileTracker eng) path")
  case None
  then show ?thesis by (simp add: handleFileDeletion_absent grid_step_refl)
next
  case (Some b)
  then show ?thesis by (simp add: handleFileDeletion_recorded grid_step_freePosition)
qed

lemma grid_step_handleFileMove:
  "grid_step (gridManager eng) (gridManager (handleFileMove rnd oldPath newPath layer eng))"
proof (cases "getBuilding (fileTracker eng) oldPath")
  case None
  then show ?thesis by (simp add: handleFileMove_def grid_step_handleFileCreation)
next
  case (Some b)
  let ?g0 = "fst (freePosition (gridManager eng) (position b))"
  obtain gm res where a: "allocatePosition ?g0 newPath (id_b b) = (gm, res)"
    by (cases "allocatePosition ?g0 newPath (id_b b)")
  have "gridManager (handleFileMove rnd oldPath newPath layer eng) = gm"
  proof (cases res)
    case (Inl err)
    with Some a show ?thesis by (simp add: handleFileMove_def Let_def)
  next
    case (Inr pos)
    obtain ft r2 where m: "moveBuilding (fileTracker eng) oldPath newPath pos layer (rnd_layerId rnd) = (ft, r2)"
      by (cases "moveBuilding (fileTracker eng) oldPath newPath pos layer (rnd_layerId rnd)")
    with Some a Inr show ?thesis
      by (cases r2) (simp_all add: handleFileMove_def Let_def emitUpdateEvent_def)
  qed
  moreover have "grid_step (gridManager eng) ?g0" by (rule grid_step_freePosition)
  moreover have "grid_step ?g0 gm"
    using grid_step_allocatePosition[of ?g0 newPath "id_b b"] a by simp
  ultimately show ?thesis by (blast intro: grid_step_trans)
qed

lemma grid_step_processFileChange:
  "grid_step (gridManager eng) (gridManager (processFileChange rnd fc commit eng))"
  by (cases "fc_changeType fc")
     (simp_all add: processFileChange_def Let_def grid_step_handleFileCreation
        grid_step_handleFileModification grid_step_handleFileDeletion grid_step_handleFileMove)

lemma grid_step_processChanges:
  "grid_step (gridManager eng) (gridManager (processChanges evs eng))"
proof (induction evs arbitrary: eng)
  case Nil
  show ?case by (simp add: grid_step_refl)
next
  case (Cons ev evs)
  obtain rnd fc commit where ev: "ev = (rnd, fc, commit)" by (cases ev)
  from grid_step_processFileChange[of eng rnd fc commit]
    Cons.IH[of "processFileChange rnd fc commit eng"]
  show ?case unfolding ev by (simp add: grid_step_trans)
qed

lemma roads_permanent:
  "roadInterval (gridManager (processChanges evs (newCityGeneratorCore cfg))) = roadInterval_cfg cfg \<and>
   roads_fixed (gridManager (processChanges evs (newCityGeneratorCore cfg)))"
  using grid_step_processChanges[of "newCityGeneratorCore cfg" evs]
  by (simp add: grid_step_def newCityGeneratorCore_def roads_fixed_new roadInterval_newGridManager)

lemma occupied_off_roads:
  assumes "grid (gridManager (processChanges evs (newCityGeneratorCore cfg))) (x, z) = Some cell"
    and "state cell = OCCUPIED \<or> state cell = RESERVED" and "roadInterval_cfg cfg \<noteq> 0"
  shows "\<not> roadInterval_cfg cfg dvd x \<and> \<not> roadInterval_cfg cfg dvd z"
proof -
  from roads_permanent[of evs cfg] roads_fixedD[OF _ assms(1)] assms(2)
  have "\<not> isRoad (roadInterval_cfg cfg) x z" by auto
  with assms(3) show ?thesis by (simp add: isRoad_dvd)
qed

lemma road_stays_road:
  assumes "roads_fixed (gridManager eng)"
    and "grid (gridManager eng) (x, z) = Some cell" and "state cell = ROAD"
  shows "\<exists>cell'. grid (gridManager (processFileChange rnd fc commit eng)) (x, z) = Some cell' \<and>
           state cell' = ROAD"
proof -
  note s = grid_step_processFileChange[of eng rnd fc commit]
  from s assms(2) obtain cell' where
    c: "grid (gridManager (processFileChange rnd fc commit eng)) (x, z) = Some cell'"
    by (auto simp: grid_step_def)
  from s assms(1) have r: "roads_fixed (gridManager (processFileChange rnd fc commit eng))"
    and i: "roadInterval (gridManager (processFileChange rnd fc commit eng)) =
            roadInterval (gridManager eng)"
    by (simp_all add: grid_step_def)
  from roads_fixedD[OF assms(1) assms(2)] assms(3) have "isRoad (roadInterval (gridManager eng)) x z"
    by simp
  with roads_fixedD[OF r c] i have "state cell' = ROAD" by simp
  with c show ?thesis by blast
qed

section \<open>The ledger survives export and import\<close>

text \<open>
  The ledger part of claim C1 holds on every run: after any list of changes from a new
  engine, importing the export into any engine gives back the same entries, in the
  same order, and the same id map.
\<close>

lemma update_absent: "k \<notin> fst ` set al \<Longrightarrow> AList.update k v al = al @ [(k, v)]"
  by (induction al) auto

lemma update_present_keys: "k \<in> fst ` set al \<Longrightarrow> map fst (AList.update k v al) = map fst al"
  by (induction al) auto

lemma map_of_absent: "map_of al k = None \<longleftrightarrow> k \<notin> fst ` set al"
  by (simp add: map_of_eq_None_iff)

lemma importData_buildings:
  "buildings (fold (\<lambda>building t.
       t\<lparr>buildings := AList.update (filePath building) building (buildings t),
         buildingIds := AList.update (id_b building) (filePath building) (buildingIds t)\<rparr>) bs t) =
   fold (\<lambda>b. AList.update (filePath b) b) bs (buildings t)"
  by (induction bs arbitrary: t) simp_all

lemma importData_buildingIds:
  "buildingIds (fold (\<lambda>building t.
       t\<lparr>buildings := AList.update (filePath building) building (buildings t),
         buildingIds := AList.update (id_b building) (filePath building) (buildingIds t)\<rparr>) bs t) =
   fold (\<lambda>b. AList.update (id_b b) (filePath b)) bs (buildingIds t)"
  by (induction bs arbitrary: t) simp_all

lemma fold_update_fresh:
  "distinct (map fst kbs) \<Longrightarrow> fst ` set kbs \<inter> fst ` set acc = {} \<Longrightarrow>
     fold (\<lambda>b. AList.update (fst b) (snd b)) kbs acc = acc @ kbs"
proof (induction kbs arbitrary: acc)
  case Nil
  show ?case by simp
next
  case (Cons kb kbs)
  from Cons.prems have a: "fst kb \<notin> fst ` set acc" by auto
  have u: "AList.update (fst kb) (snd kb) acc = acc @ [kb]"
    using update_absent[OF a, of "snd kb"] by simp
  from Cons.prems have "distinct (map fst kbs)"
    and "fst ` set kbs \<inter> fst ` set (acc @ [kb]) = {}" by auto
  from Cons.IH[OF this] show ?case by (simp add: u)
qed

lemma fold_update_ids:
  "map_of (fold (\<lambda>b. AList.update (f b) (g b)) bs acc) =
     map_of (rev (map (\<lambda>b. (f b, g b)) bs) @ acc)"
proof (induction bs arbitrary: acc)
  case Nil
  show ?case by simp
next
  case (Cons b bs)
  show ?case
    by (simp add: Cons.IH[of "AList.update (f b) (g b) acc"] update_conv' map_add_def fun_eq_iff
        split: option.splits)
qed

lemma keyed_by_path:
  "\<forall>(k, b) \<in> set xs. filePath b = k \<Longrightarrow>
     map (\<lambda>b. (filePath b, b)) (map snd xs) = xs \<and>
     map (\<lambda>b. (id_b b, filePath b)) (map snd xs) = map (\<lambda>(k, b). (id_b b, k)) xs"
  by (induction xs) auto

lemma ledger_roundtrip:
  assumes "ledger_ok ft"
  shows "buildings (importData (exportData ft) ft') = buildings ft"
    and "map_of (buildingIds (importData (exportData ft) ft')) = map_of (buildingIds ft)"
proof -
  from assms have d: "distinct (map fst (buildings ft))"
    and p: "\<forall>(k, b) \<in> set (buildings ft). filePath b = k"
    and i: "map_of (buildingIds ft) = idIndex (buildings ft)"
    by (simp_all add: ledger_ok_def)
  from keyed_by_path[OF p] have m: "map (\<lambda>b. (filePath b, b)) (map snd (buildings ft)) = buildings ft"
    by simp
  have "buildings (importData (exportData ft) ft') =
      fold (\<lambda>b. AList.update (filePath b) b) (map snd (buildings ft)) []"
    by (simp add: importData_def exportData_def clear_def importData_buildings)
  also have "\<dots> = fold (\<lambda>kb. AList.update (fst kb) (snd kb))
      (map (\<lambda>b. (filePath b, b)) (map snd (buildings ft))) []"
    by (simp add: fold_map comp_def)
  also have "\<dots> = buildings ft"
    unfolding m using fold_update_fresh[OF d, of "[]"] by simp
  finally show "buildings (importData (exportData ft) ft') = buildings ft" .
  have "map_of (buildingIds (importData (exportData ft) ft')) =
      map_of (rev (map (\<lambda>b. (id_b b, filePath b)) (map snd (buildings ft))))"
    by (simp add: importData_def exportData_def clear_def importData_buildingIds fold_update_ids)
  also from keyed_by_path[OF p] have "map (\<lambda>b. (id_b b, filePath b)) (map snd (buildings ft)) =
      map (\<lambda>(k, b). (id_b b, k)) (buildings ft)"
    by simp
  finally show "map_of (buildingIds (importData (exportData ft) ft')) = map_of (buildingIds ft)"
    by (simp add: i idIndex_def)
qed


lemma ledger_ok_new: "ledger_ok newFileTracker"
  by (simp add: ledger_ok_def newFileTracker_def idIndex_def)

lemma idIndex_append: "idIndex (bs @ [(k, b)]) = (idIndex bs)(id_b b \<mapsto> k)"
  by (simp add: idIndex_def fun_eq_iff)

lemma ids_update_same:
  "map_of bs path = Some b \<Longrightarrow> id_b b' = id_b b \<Longrightarrow>
     map (\<lambda>(k, b). (id_b b, k)) (AList.update path b' bs) = map (\<lambda>(k, b). (id_b b, k)) bs"
  by (induction bs) (auto split: if_splits)

lemma set_update_subset: "set (AList.update k v al) \<subseteq> insert (k, v) (set al)"
  by (induction al) auto

lemma ledger_ok_update_same:
  assumes ok: "ledger_ok ft" and b: "map_of (buildings ft) path = Some b"
    and i: "id_b b' = id_b b" and f: "filePath b' = filePath b"
  shows "ledger_ok (ft\<lparr>buildings := AList.update path b' (buildings ft)\<rparr>)"
proof -
  from b have k: "path \<in> fst ` set (buildings ft)"
    by (metis map_of_absent option.distinct(1))
  from ok b have fp: "filePath b = path"
    by (auto simp: ledger_ok_def dest: map_of_SomeD)
  have "\<forall>(k, c) \<in> set (AList.update path b' (buildings ft)). filePath c = k"
    using ok f fp set_update_subset[of path b' "buildings ft"] by (auto simp: ledger_ok_def)
  with ok show ?thesis
    by (simp add: ledger_ok_def update_present_keys[OF k] idIndex_def ids_update_same[OF b i])
qed

lemma ledger_ok_createBuilding:
  assumes "ledger_ok ft"
  shows "ledger_ok (fst (createBuilding ft path pos layer bid lid))"
proof (cases "getBuilding ft path")
  case (Some b)
  with assms show ?thesis by (simp add: createBuilding_recorded)
next
  case None
  then have a: "path \<notin> fst ` set (buildings ft)"
    by (simp add: getBuilding_def map_of_absent)
  from assms None a show ?thesis
    by (auto simp: createBuilding_new update_absent ledger_ok_def idIndex_append update_conv')
qed

lemma ledger_ok_addLayer:
  assumes "ledger_ok ft"
  shows "ledger_ok (fst (addLayer ft path layer lid))"
proof (cases "map_of (buildings ft) path")
  case None
  with assms show ?thesis by (simp add: addLayer_def)
next
  case (Some b)
  show ?thesis
  proof (cases "isActive b")
    case False
    with Some assms show ?thesis by (simp add: addLayer_def)
  next
    case True
    with Some ledger_ok_update_same[OF assms Some,
        of "b\<lparr>layers := layers b @ [withId lid layer], lastModified := timestamp layer\<rparr>"]
    show ?thesis by (simp add: addLayer_def Let_def)
  qed
qed

lemma ledger_ok_deleteBuilding:
  assumes "ledger_ok ft"
  shows "ledger_ok (fst (deleteBuilding ft path layer lid))"
proof (cases "map_of (buildings ft) path")
  case None
  with assms show ?thesis by (simp add: deleteBuilding_def)
next
  case (Some b)
  with ledger_ok_update_same[OF assms Some,
      of "b\<lparr>layers := layers b @ [(withId lid layer)\<lparr>changeType := DELETE\<rparr>],
            isActive := False, lastModified := timestamp layer\<rparr>"]
  show ?thesis by (simp add: deleteBuilding_def Let_def)
qed

lemma map_of_rev_filter:
  "\<forall>x \<in> set xs. \<not> P x \<longrightarrow> fst (f x) \<noteq> i \<Longrightarrow>
     map_of (rev (map f (filter P xs))) i = map_of (rev (map f xs)) i"
  by (induction xs) (auto simp: map_add_def split: option.splits)

lemma ledger_ok_moveBuilding:
  assumes ok: "ledger_ok ft"
  shows "ledger_ok (fst (moveBuilding ft oldPath newPath pos layer lid))"
proof (cases "map_of (buildings ft) oldPath")
  case None
  with ok show ?thesis by (simp add: moveBuilding_def)
next
  case (Some b)
  show ?thesis
  proof (cases "map_of (buildings ft) newPath")
    case occupied: (Some c)
    with Some ok show ?thesis by (simp add: moveBuilding_def)
  next
    case None
    let ?bs = "buildings ft"
    let ?b' = "b\<lparr>layers := layers b @ [(withId lid layer)\<lparr>changeType := MOVE\<rparr>],
                 filePath := newPath, position := pos,
                 fileType := determineFileType newPath, lastModified := timestamp layer\<rparr>"
    let ?rest = "AList.delete oldPath ?bs"
    from ok have d: "distinct (map fst ?bs)"
      and p: "\<forall>(k, c) \<in> set ?bs. filePath c = k"
      and i: "map_of (buildingIds ft) = idIndex ?bs"
      by (simp_all add: ledger_ok_def)
    from None have n: "newPath \<notin> fst ` set ?rest"
      by (auto simp: map_of_absent AList.delete_eq)
    have u: "AList.update newPath ?b' ?rest = ?rest @ [(newPath, ?b')]"
      by (rule update_absent[OF n])
    have d': "distinct (map fst (?rest @ [(newPath, ?b')]))"
      using d n by (simp add: distinct_delete)
    have p': "\<forall>(k, c) \<in> set (?rest @ [(newPath, ?b')]). filePath c = k"
      using p by (auto simp: AList.delete_eq)
    have removed: "\<forall>x \<in> set ?bs. \<not> (case x of (k, c) \<Rightarrow> oldPath \<noteq> k) \<longrightarrow>
        fst (case x of (k, c) \<Rightarrow> (id_b c, k)) \<noteq> j" if "j \<noteq> id_b b" for j
    proof (intro ballI impI)
      fix x assume x: "x \<in> set ?bs" and "\<not> (case x of (k, c) \<Rightarrow> oldPath \<noteq> k)"
      then obtain c where xc: "x = (oldPath, c)" by (cases x) auto
      with x d have "map_of ?bs oldPath = Some c" by simp
      with Some have "c = b" by simp
      with xc that show "fst (case x of (k, c) \<Rightarrow> (id_b c, k)) \<noteq> j" by simp
    qed
    have "idIndex (?rest @ [(newPath, ?b')]) = (idIndex ?bs)(id_b b \<mapsto> newPath)"
    proof (rule ext)
      fix j
      show "idIndex (?rest @ [(newPath, ?b')]) j = ((idIndex ?bs)(id_b b \<mapsto> newPath)) j"
      proof (cases "j = id_b b")
        case True
        then show ?thesis by (simp add: idIndex_append)
      next
        case False
        with map_of_rev_filter[OF removed[OF False]] show ?thesis
          by (simp add: idIndex_append idIndex_def AList.delete_eq)
      qed
    qed
    with d' p' i have "ledger_ok (ft\<lparr>buildings := ?rest @ [(newPath, ?b')],
        buildingIds := AList.update (id_b b) newPath (buildingIds ft)\<rparr>)"
      by (simp add: ledger_ok_def update_conv')
    with Some None u show ?thesis by (simp add: moveBuilding_def Let_def)
  qed
qed

lemma fileTracker_handleFileCreation:
  "fileTracker (handleFileCreation rnd path layer eng) = fileTracker eng \<or>
   (\<exists>pos. fileTracker (handleFileCreation rnd path layer eng) =
      fst (createBuilding (fileTracker eng) path pos layer (rnd_buildingId rnd) (rnd_layerId rnd)))"
proof (cases "getBuilding (fileTracker eng) path")
  case (Some b)
  then show ?thesis by (simp add: handleFileCreation_recorded)
next
  case None
  obtain gm res where a: "allocatePosition (gridManager eng) path (rnd_gridId rnd) = (gm, res)"
    by (cases "allocatePosition (gridManager eng) path (rnd_gridId rnd)")
  show ?thesis
  proof (cases res)
    case (Inl err)
    with None a show ?thesis by (simp add: handleFileCreation_def)
  next
    case (Inr pos)
    with None a handleFileCreation_new(2)[OF None, of rnd gm pos layer] show ?thesis by blast
  qed
qed

lemma ledger_ok_handleFileCreation:
  "ledger_ok (fileTracker eng) \<Longrightarrow> ledger_ok (fileTracker (handleFileCreation rnd path layer eng))"
  using fileTracker_handleFileCreation[of rnd path layer eng]
  by (auto simp: ledger_ok_createBuilding)

lemma ledger_ok_handleFileModification:
  assumes "ledger_ok (fileTracker eng)"
  shows "ledger_ok (fileTracker (handleFileModification rnd path layer eng))"
proof (cases "getBuilding (fileTracker eng) path")
  case None
  with assms show ?thesis
    by (simp add: handleFileModification_absent ledger_ok_handleFileCreation)
next
  case (Some b)
  obtain ft res where a: "addLayer (fileTracker eng) path layer (rnd_layerId rnd) = (ft, res)"
    by (cases "addLayer (fileTracker eng) path layer (rnd_layerId rnd)")
  with Some have "fileTracker (handleFileModification rnd path layer eng) = ft"
    by (cases res) (simp_all add: handleFileModification_def emitUpdateEvent_def)
  with ledger_ok_addLayer[OF assms, of path layer "rnd_layerId rnd"] a show ?thesis by simp
qed

lemma ledger_ok_handleFileDeletion:
  assumes "ledger_ok (fileTracker eng)"
  shows "ledger_ok (fileTracker (handleFileDeletion rnd path layer eng))"
proof (cases "getBuilding (fileTracker eng) path")
  case None
  with assms show ?thesis by (simp add: handleFileDeletion_absent)
next
  case (Some b)
  obtain ft res where a: "deleteBuilding (fileTracker eng) path layer (rnd_layerId rnd) = (ft, res)"
    by (cases "deleteBuilding (fileTracker eng) path layer (rnd_layerId rnd)")
  with Some have "fileTracker (handleFileDeletion rnd path layer eng) = ft"
    by (cases res) (simp_all add: handleFileDeletion_def emitUpdateEvent_def)
  with ledger_ok_deleteBuilding[OF assms, of path layer "rnd_layerId rnd"] a show ?thesis by simp
qed

lemma ledger_ok_handleFileMove:
  assumes "ledger_ok (fileTracker eng)"
  shows "ledger_ok (fileTracker (handleFileMove rnd oldPath newPath layer eng))"
proof (cases "getBuilding (fileTracker eng) oldPath")
  case None
  with assms show ?thesis by (simp add: handleFileMove_def ledger_ok_handleFileCreation)
next
  case (Some b)
  let ?g0 = "fst (freePosition (gridManager eng) (position b))"
  obtain gm res where a: "allocatePosition ?g0 newPath (id_b b) = (gm, res)"
    by (cases "allocatePosition ?g0 newPath (id_b b)")
  show ?thesis
  proof (cases res)
    case (Inl err)
    with Some a assms show ?thesis by (simp add: handleFileMove_def Let_def)
  next
    case (Inr pos)
    obtain ft r2 where m: "moveBuilding (fileTracker eng) oldPath newPath pos layer (rnd_layerId rnd) = (ft, r2)"
      by (cases "moveBuilding (fileTracker eng) oldPath newPath pos layer (rnd_layerId rnd)")
    with Some a Inr have "fileTracker (handleFileMove rnd oldPath newPath layer eng) = ft"
      by (cases r2) (simp_all add: handleFileMove_def Let_def emitUpdateEvent_def)
    with ledger_ok_moveBuilding[OF assms, of oldPath newPath pos layer "rnd_layerId rnd"] m
    show ?thesis by simp
  qed
qed

lemma ledger_ok_processFileChange:
  "ledger_ok (fileTracker eng) \<Longrightarrow> ledger_ok (fileTracker (processFileChange rnd fc commit eng))"
  by (cases "fc_changeType fc")
     (simp_all add: processFileChange_def Let_def ledger_ok_handleFileCreation
        ledger_ok_handleFileModification ledger_ok_handleFileDeletion ledger_ok_handleFileMove)

lemma ledger_ok_processChanges:
  "ledger_ok (fileTracker eng) \<Longrightarrow> ledger_ok (fileTracker (processChanges evs eng))"
proof (induction evs arbitrary: eng)
  case Nil
  then show ?case by simp
next
  case (Cons ev evs)
  obtain rnd fc commit where ev: "ev = (rnd, fc, commit)" by (cases ev)
  from Cons.IH[OF ledger_ok_processFileChange[OF Cons.prems, of rnd fc commit]]
  show ?case unfolding ev by simp
qed

lemma ledger_restored_by_import:
  "buildings (fileTracker (importCityData
      (exportCityData now (processChanges evs (newCityGeneratorCore cfg))) eng)) =
     buildings (fileTracker (processChanges evs (newCityGeneratorCore cfg))) \<and>
   map_of (buildingIds (fileTracker (importCityData
      (exportCityData now (processChanges evs (newCityGeneratorCore cfg))) eng))) =
     map_of (buildingIds (fileTracker (processChanges evs (newCityGeneratorCore cfg))))"
proof -
  have "ledger_ok (fileTracker (processChanges evs (newCityGeneratorCore cfg)))"
    by (rule ledger_ok_processChanges) (simp add: newCityGeneratorCore_def ledger_ok_new)
  from ledger_roundtrip[OF this] show ?thesis
    by (simp add: importCityData_def exportCityData_def rebuildGridFromBuildings_def Let_def)
qed

end
